theory Spec2Isabelle
  imports Main "HOL-Library.Word"
begin

unbundle bit_operations_syntax

section \<open>Representation of the C data\<close>

text \<open>
  The client \<^verbatim>\<open>dns_client.c\<close> overlays a bit-field struct on a 16-bit header word and
  swaps bytes with \<^verbatim>\<open>htons\<close>; both only give the DNS wire layout on a little-endian
  ABI that allocates bit-fields from the least significant bit. The model fixes that ABI
  (x86-64 Linux): \<^verbatim>\<open>char\<close> is a signed 8-bit value, \<^verbatim>\<open>short\<close> has 16 bits,
  \<^verbatim>\<open>unsigned int\<close> has 32 bits, multi-byte loads and stores are little-endian.

  A \<^verbatim>\<open>char *\<close> string is the list of its bytes before the terminating NUL. A function
  that returns a pointer returns \<open>None\<close> for \<^verbatim>\<open>NULL\<close>. An access that the C code makes
  outside the source buffer it reads, or through a pointer that a failed allocation
  left \<^verbatim>\<open>NULL\<close>, is the outcome \<open>Fault\<close>.

  In two places the code leaves what C defines, and builds differ there. The model takes
  what the build does as a parameter: \<open>strict\<close> for the flag stores of
  \<^verbatim>\<open>hydrate_dns_header\<close>, which break the aliasing rule, and \<open>huge\<close> for a \<^verbatim>\<open>memcpy\<close>
  whose size is a negative length byte.

  The sizes of three destination buffers are not modelled: \<^verbatim>\<open>host_copy\<close>
  (\<^verbatim>\<open>strlen(host)\<close> bytes, written with the terminator), the decoded name
  (\<^verbatim>\<open>malloc(qname_len - 1)\<close>, written with dots and terminator) and \<^verbatim>\<open>ip_addr\<close>
  (4 bytes, written with the dotted text). The code writes past each of them; the model
  keeps the value that was written.
\<close>

type_synonym byte = "8 word"
type_synonym cstring = "byte list"

datatype 'a result = Fault | Returns 'a

definition bytes :: "string \<Rightarrow> cstring" where
  "bytes s = map of_char s"

abbreviation dot :: byte where
  "dot \<equiv> 46"

text \<open>The value of a \<^verbatim>\<open>char\<close> object after promotion to \<^verbatim>\<open>int\<close>.\<close>

definition char_val :: "byte \<Rightarrow> int" where
  "char_val c = sint c"

text \<open>\<^verbatim>\<open>(short) n\<close> for a \<^verbatim>\<open>size_t\<close> value \<open>n\<close>, read back as an integer.\<close>

definition to_short :: "nat \<Rightarrow> int" where
  "to_short n = sint (word_of_nat n :: 16 word)"

section \<open>Encoding a host name\<close>

text \<open>
  \<^verbatim>\<open>static short get_qname_len(char *host) { return (short)(strlen(host) + 2); }\<close>
\<close>

definition get_qname_len :: "cstring \<Rightarrow> int" where
  "get_qname_len host = to_short (length host + 2)"

text \<open>
  The tokens that \<^verbatim>\<open>strtok(host_copy, ".")\<close> and the following \<^verbatim>\<open>strtok(NULL, ".")\<close>
  calls return, until \<^verbatim>\<open>strtok\<close> returns \<^verbatim>\<open>NULL\<close>: each call skips the delimiters in
  front of it, returns \<^verbatim>\<open>NULL\<close> at the end of the string, and otherwise returns the
  bytes up to the next delimiter and resumes behind that delimiter.
\<close>

function strtok_all :: "cstring \<Rightarrow> cstring list" where
  "strtok_all s =
     (case dropWhile (\<lambda>c. c = dot) s of
        [] \<Rightarrow> []
      | c # cs \<Rightarrow>
          takeWhile (\<lambda>c. c \<noteq> dot) (c # cs)
            # strtok_all (drop 1 (dropWhile (\<lambda>c. c \<noteq> dot) (c # cs))))"
  by pat_completeness auto
termination
proof (relation "measure length", goal_cases)
  case 1
  show ?case by simp
next
  case (2 s c cs)
  have "length (dropWhile (\<lambda>c. c \<noteq> dot) (c # cs)) \<le> length (c # cs)"
    by (rule length_dropWhile_le)
  moreover have "length (dropWhile (\<lambda>c. c = dot) s) \<le> length s"
    by (rule length_dropWhile_le)
  ultimately show ?case using 2 by simp
qed

declare strtok_all.simps [simp del]

text \<open>
  The body of the \<^verbatim>\<open>while (token)\<close> loop, for each token in turn:
  \<^verbatim>\<open>*pos++ = strlen(token); strcpy(pos, token); pos += strlen(token);\<close>.
  The length is stored in a \<^verbatim>\<open>char\<close>, so it is reduced modulo 256.
\<close>

fun write_labels :: "cstring list \<Rightarrow> byte list" where
  "write_labels [] = []"
| "write_labels (token # rest) = word_of_nat (length token) # token @ write_labels rest"

text \<open>
  \<^verbatim>\<open>hostname_to_qname\<close>. The buffer \<^verbatim>\<open>calloc(qname_len, 1)\<close> holds the written labels
  and zeros behind them, so the string \<^verbatim>\<open>qname\<close> is the written bytes up to the first
  zero. When \<^verbatim>\<open>(short)(strlen(host) + 2)\<close> is not \<^verbatim>\<open>strlen(host) + 2\<close> the allocation
  is either refused (negative size) or shorter than the host, and the loop stores outside
  it. Otherwise \<^verbatim>\<open>qname_len\<close> is positive and the comparison
  \<^verbatim>\<open>strlen(qname) + 1 < qname_len\<close> is a comparison of the two numbers.
\<close>

definition hostname_to_qname :: "cstring \<Rightarrow> cstring option result" where
  "hostname_to_qname host =
     (let qname_len = get_qname_len host;
          qname = takeWhile (\<lambda>c. c \<noteq> 0) (write_labels (strtok_all host))
      in if qname_len \<noteq> int (length host) + 2 then Fault
         else if int (length qname) + 1 < qname_len then Returns None
         else Returns (Some qname))"

section \<open>The header\<close>

text \<open>
  \<^verbatim>\<open>struct dns_header_flags\<close>: bit-fields of one \<^verbatim>\<open>unsigned int\<close>, declared from
  \<^verbatim>\<open>rcode\<close> (bits 0 to 3) to \<^verbatim>\<open>qr\<close> (bit 15).
\<close>

record dns_header_flags =
  rcode :: "4 word"
  z :: "3 word"
  ra :: "1 word"
  rd :: "1 word"
  tc :: "1 word"
  aa :: "1 word"
  opcode :: "4 word"
  qr :: "1 word"

record dns_header =
  message_id :: "16 word"
  flags :: "16 word"
  qd_count :: "16 word"
  an_count :: "16 word"
  ns_count :: "16 word"
  as_count :: "16 word"

text \<open>
  The overlay \<^verbatim>\<open>(struct dns_header_flags *)&header->flags\<close>: the fields seen through
  the struct pointer in a 16-bit word, and the word \<^verbatim>\<open>*(unsigned short *)flags\<close> that
  holds given fields.
\<close>

definition flags_view :: "16 word \<Rightarrow> dns_header_flags" where
  "flags_view w =
     \<lparr>rcode = ucast w, z = ucast (drop_bit 4 w), ra = ucast (drop_bit 7 w),
      rd = ucast (drop_bit 8 w), tc = ucast (drop_bit 9 w), aa = ucast (drop_bit 10 w),
      opcode = ucast (drop_bit 11 w), qr = ucast (drop_bit 15 w)\<rparr>"

definition flags_word :: "dns_header_flags \<Rightarrow> 16 word" where
  "flags_word f =
     ucast (rcode f) OR push_bit 4 (ucast (z f)) OR push_bit 7 (ucast (ra f))
       OR push_bit 8 (ucast (rd f)) OR push_bit 9 (ucast (tc f)) OR push_bit 10 (ucast (aa f))
       OR push_bit 11 (ucast (opcode f)) OR push_bit 15 (ucast (qr f))"

text \<open>
  \<^verbatim>\<open>hydrate_dns_header\<close>. The eight bit-field stores go through a pointer to
  \<^verbatim>\<open>struct dns_header_flags\<close> into the object \<^verbatim>\<open>header->flags\<close>, whose type is
  \<^verbatim>\<open>unsigned short\<close>, and \<^verbatim>\<open>header->flags = *(unsigned short *)flags\<close> then reads that
  object through its own type. This breaks the aliasing rule of C, and builds differ: a
  compiler that does not use the rule (gcc \<^verbatim>\<open>-O0\<close>) leaves the packed fields in
  \<^verbatim>\<open>header->flags\<close>; a compiler that uses it (gcc \<^verbatim>\<open>-O2\<close>) takes the stores not to
  touch \<^verbatim>\<open>header->flags\<close>, reads it before them and stores that value back last, so the
  flags keep what the block held. The parameter \<open>strict\<close> says that the build uses the
  rule. \<^verbatim>\<open>message_id\<close> and the four counts are ordinary stores.
\<close>

definition hydrate_dns_header :: "bool \<Rightarrow> dns_header \<Rightarrow> dns_header" where
  "hydrate_dns_header strict header =
     (let flags0 = flags_view (flags header);
          flags1 = flags0\<lparr>qr := 0, opcode := 0, aa := 0, tc := 0, rd := 1, ra := 0,
                           z := 0, rcode := 0\<rparr>
      in header\<lparr>message_id := 1,
                  flags := (if strict then flags header else flags_word flags1),
                  qd_count := 1, an_count := 0, ns_count := 0, as_count := 0\<rparr>)"

text \<open>\<^verbatim>\<open>htons\<close>, \<^verbatim>\<open>ntohs\<close> and \<^verbatim>\<open>ntohl\<close> on a little-endian host swap the bytes.\<close>

definition htons :: "16 word \<Rightarrow> 16 word" where
  "htons x = push_bit 8 x OR drop_bit 8 x"

definition ntohs :: "16 word \<Rightarrow> 16 word" where
  "ntohs x = push_bit 8 x OR drop_bit 8 x"

definition ntohl :: "32 word \<Rightarrow> 32 word" where
  "ntohl x =
     push_bit 24 (take_bit 8 x) OR push_bit 16 (take_bit 8 (drop_bit 8 x))
       OR push_bit 8 (take_bit 8 (drop_bit 16 x)) OR drop_bit 24 x"

definition flip_dns_header :: "dns_header \<Rightarrow> dns_header" where
  "flip_dns_header header =
     header\<lparr>message_id := htons (message_id header), flags := htons (flags header),
            qd_count := htons (qd_count header), an_count := htons (an_count header),
            ns_count := htons (ns_count header), as_count := htons (as_count header)\<rparr>"

definition extract_header :: "dns_header \<Rightarrow> dns_header" where
  "extract_header header =
     header\<lparr>message_id := ntohs (message_id header), flags := ntohs (flags header),
            qd_count := ntohs (qd_count header), an_count := ntohs (an_count header),
            ns_count := ntohs (ns_count header), as_count := ntohs (as_count header)\<rparr>"

text \<open>A 16-bit object in memory, and \<^verbatim>\<open>struct dns_header\<close> in memory (12 bytes, no gaps).\<close>

definition store16 :: "16 word \<Rightarrow> byte list" where
  "store16 x = [ucast x, ucast (drop_bit 8 x)]"

definition store_header :: "dns_header \<Rightarrow> byte list" where
  "store_header header =
     store16 (message_id header) @ store16 (flags header) @ store16 (qd_count header)
       @ store16 (an_count header) @ store16 (ns_count header) @ store16 (as_count header)"

text \<open>
  \<^verbatim>\<open>hydrate_message\<close> fills the message from its first byte: the header struct at offset
  0 (\<open>header\<close> is what the uninitialised block held there), the string \<^verbatim>\<open>qname\<close> with
  its terminator at offset 12, and two 16-bit stores behind it. The result is the bytes
  \<open>0\<close> to \<open>12 + strlen(qname) + 1 + 4\<close> of the block, all of them written.
\<close>

definition hydrate_message :: "bool \<Rightarrow> dns_header \<Rightarrow> cstring \<Rightarrow> byte list" where
  "hydrate_message strict header qname =
     store_header (flip_dns_header (hydrate_dns_header strict header))
       @ qname @ [0] @ store16 (htons 1) @ store16 (htons 1)"

definition FIELD_SIZE :: nat where
  "FIELD_SIZE = 2"

definition BUFFER_SIZE :: nat where
  "BUFFER_SIZE = 2048"

text \<open>
  The first part of \<^verbatim>\<open>main\<close>, up to \<^verbatim>\<open>sendto\<close>: \<open>None\<close> is the exit after
  "Wrong hostname", otherwise the result is the datagram handed to \<^verbatim>\<open>sendto\<close>, the
  first \<^verbatim>\<open>message_len\<close> bytes of the message. \<^verbatim>\<open>message_len\<close> is a \<^verbatim>\<open>short\<close>; when
  it is negative \<^verbatim>\<open>malloc\<close> is asked for more than the address space and
  \<^verbatim>\<open>hydrate_message\<close> stores through \<^verbatim>\<open>NULL\<close>.
\<close>

definition main_query :: "bool \<Rightarrow> dns_header \<Rightarrow> cstring \<Rightarrow> byte list option result" where
  "main_query strict header target_host =
     (case hostname_to_qname target_host of
        Fault \<Rightarrow> Fault
      | Returns None \<Rightarrow> Returns None
      | Returns (Some qname) \<Rightarrow>
          (let message_len = to_short (12 + length qname + 1 + 2 * FIELD_SIZE)
           in if message_len < 0 then Fault
              else Returns (Some (take (nat message_len)
                                   (hydrate_message strict header qname)))))"

section \<open>Decoding the response\<close>

text \<open>
  Reads of the response buffer. \<open>peek16\<close> and \<open>peek32\<close> are the little-endian loads
  \<^verbatim>\<open>*(unsigned short *)p\<close> and \<^verbatim>\<open>*(unsigned int *)p\<close>; the functions that use them
  check first that the bytes lie inside the buffer. \<open>strlen\<close> runs to the first zero
  byte and leaves the buffer when there is none; \<open>memcpy_src\<close> is the source of a
  \<^verbatim>\<open>memcpy\<close> of \<open>n\<close> bytes.
\<close>

definition peek16 :: "byte list \<Rightarrow> nat \<Rightarrow> 16 word" where
  "peek16 buf i = ucast (buf ! i) OR push_bit 8 (ucast (buf ! (i + 1)))"

definition peek32 :: "byte list \<Rightarrow> nat \<Rightarrow> 32 word" where
  "peek32 buf i =
     ucast (buf ! i) OR push_bit 8 (ucast (buf ! (i + 1))) OR push_bit 16 (ucast (buf ! (i + 2)))
       OR push_bit 24 (ucast (buf ! (i + 3)))"

definition load8 :: "byte list \<Rightarrow> nat \<Rightarrow> byte option" where
  "load8 buf i = (if i < length buf then Some (buf ! i) else None)"

definition strlen :: "byte list \<Rightarrow> nat \<Rightarrow> nat option" where
  "strlen buf start =
     (if 0 \<in> set (drop start buf)
      then Some (length (takeWhile (\<lambda>c. c \<noteq> 0) (drop start buf)))
      else None)"

definition memcpy_src :: "byte list \<Rightarrow> nat \<Rightarrow> nat \<Rightarrow> byte list option" where
  "memcpy_src buf i n = (if i + n \<le> length buf then Some (take n (drop i buf)) else None)"

record dns_question =
  qname :: cstring
  qtype :: "16 word"
  qclass :: "16 word"

record dns_resource_record =
  offset :: "16 word"
  rr_type :: "16 word"
  rr_class :: "16 word"
  ttl :: "32 word"
  rd_length :: "16 word"
  ip_addr :: cstring

text \<open>
  The \<^verbatim>\<open>while (section_pos < start_pos + qname_len)\<close> loop of \<^verbatim>\<open>extract_question\<close>.
  Positions are offsets into the buffer; \<open>name\<close> is what has been written at
  \<^verbatim>\<open>question->qname\<close> so far, so \<^verbatim>\<open>qname_pos > question->qname\<close> is \<open>name \<noteq> []\<close>.
  The loop returns the final \<^verbatim>\<open>section_pos\<close> and the bytes written.

  \<^verbatim>\<open>*section_pos\<close> is a signed \<^verbatim>\<open>char\<close>, and the code does not test it: a negative one
  becomes a \<^verbatim>\<open>memcpy\<close> size above \<open>2^63\<close>, and \<^verbatim>\<open>qname_pos\<close> and \<^verbatim>\<open>section_pos\<close>
  then move by a negative amount (\<^verbatim>\<open>section_pos\<close> by zero for the byte \<open>0xFF\<close>). C gives
  such a \<^verbatim>\<open>memcpy\<close> no meaning, and builds differ: the process may fault in it, or it
  may return, and the loop then goes on from an earlier position, possibly for ever. The
  model does not choose. The parameter \<open>huge\<close> is what the build makes of the rest of
  the run from such a call on, given the buffer, \<^verbatim>\<open>section_pos\<close> and the bytes written:
  a fault, a final position and name, or no result at all (\<open>None\<close>).
\<close>

type_synonym huge_memcpy =
  "byte list \<Rightarrow> nat \<Rightarrow> byte list \<Rightarrow> (nat \<times> byte list) result option"

partial_function (option) question_loop ::
  "huge_memcpy \<Rightarrow> byte list \<Rightarrow> nat \<Rightarrow> int \<Rightarrow> nat \<Rightarrow> byte list
     \<Rightarrow> (nat \<times> byte list) result option" where
  "question_loop huge buf start_pos qname_len section_pos name =
     (if int section_pos < int start_pos + qname_len then
        (case load8 buf section_pos of
           None \<Rightarrow> Some Fault
         | Some c \<Rightarrow>
             (if char_val c < 0 then huge buf section_pos name
              else
                (case memcpy_src buf (section_pos + 1) (nat (char_val c)) of
                   None \<Rightarrow> Some Fault
                 | Some label \<Rightarrow>
                     question_loop huge buf start_pos qname_len
                       (section_pos + nat (char_val c) + 1)
                       ((if name \<noteq> [] then name @ [dot] else name) @ label))))
      else Some (Returns (section_pos, name)))"

declare question_loop.simps [code]

text \<open>A build in which a \<^verbatim>\<open>memcpy\<close> of more than \<open>2^63\<close> bytes faults.\<close>

definition memcpy_faults :: huge_memcpy where
  "memcpy_faults buf section_pos name = Some Fault"

text \<open>
  \<^verbatim>\<open>extract_question\<close>. \<^verbatim>\<open>malloc(qname_len - 1)\<close> with a negative argument returns
  \<^verbatim>\<open>NULL\<close>, and \<^verbatim>\<open>*qname_pos = 0\<close> then stores through it. The field \<open>qname\<close> is the
  string at \<^verbatim>\<open>question->qname\<close>: the written bytes up to the first zero. \<open>None\<close> is a
  loop that does not end.
\<close>

definition extract_question ::
  "huge_memcpy \<Rightarrow> byte list \<Rightarrow> nat \<Rightarrow> dns_question result option" where
  "extract_question huge buf start_pos =
     (case strlen buf start_pos of
        None \<Rightarrow> Some Fault
      | Some n \<Rightarrow>
          (let qname_len = to_short n
           in if qname_len - 1 < 0 then Some Fault
              else
                (case question_loop huge buf start_pos qname_len start_pos [] of
                   None \<Rightarrow> None
                 | Some Fault \<Rightarrow> Some Fault
                 | Some (Returns (section_pos, name)) \<Rightarrow>
                     (if section_pos + 5 \<le> length buf
                      then Some (Returns
                        \<lparr>qname = takeWhile (\<lambda>c. c \<noteq> 0) name,
                         qtype = ntohs (peek16 buf (section_pos + 1)),
                         qclass = ntohs (peek16 buf (section_pos + 3))\<rparr>)
                      else Some Fault))))"

text \<open>\<^verbatim>\<open>inet_ntoa\<close>: the four bytes of the address in memory order, in decimal.\<close>

fun decimal :: "nat \<Rightarrow> cstring" where
  "decimal n =
     (if n < 10 then [48 + word_of_nat n]
      else decimal (n div 10) @ [48 + word_of_nat (n mod 10)])"

definition inet_ntoa :: "32 word \<Rightarrow> cstring" where
  "inet_ntoa addr =
     decimal (unat (ucast addr :: byte)) @ [dot]
       @ decimal (unat (ucast (drop_bit 8 addr) :: byte)) @ [dot]
       @ decimal (unat (ucast (drop_bit 16 addr) :: byte)) @ [dot]
       @ decimal (unat (ucast (drop_bit 24 addr) :: byte))"

text \<open>
  \<^verbatim>\<open>extract_resource_record\<close> reads the 16 bytes at \<open>source\<close>: five 16-bit steps of
  \<^verbatim>\<open>pos\<close>, one of them double, and the 32-bit address behind them.
\<close>

definition extract_resource_record :: "byte list \<Rightarrow> nat \<Rightarrow> dns_resource_record result" where
  "extract_resource_record buf source =
     (if source + 16 \<le> length buf
      then Returns
        \<lparr>offset = ntohs (peek16 buf source) AND 0x3FFF,
         rr_type = ntohs (peek16 buf (source + 2)),
         rr_class = ntohs (peek16 buf (source + 4)),
         ttl = ntohl (peek32 buf (source + 6)),
         rd_length = ntohs (peek16 buf (source + 10)),
         ip_addr = inet_ntoa (peek32 buf (source + 12))\<rparr>
      else Fault)"

text \<open>
  The second part of \<^verbatim>\<open>main\<close>. The response buffer is \<^verbatim>\<open>calloc(BUFFER_SIZE, 1)\<close> with
  the datagram received into it. The header is the struct at offset 0 after
  \<^verbatim>\<open>flip_dns_header\<close>, which rewrites bytes 0 to 11 in place; every later read is at
  offset 12 or above. One question is read at offset 12; answer \<open>i\<close> is read at
  \<^verbatim>\<open>sizeof(struct dns_header) + get_qname_len(question.qname) + 2 * FIELD_SIZE + i * 16\<close>.
\<close>

definition recv_buffer :: "byte list \<Rightarrow> byte list" where
  "recv_buffer datagram =
     take BUFFER_SIZE datagram @ replicate (BUFFER_SIZE - length datagram) 0"

definition load_header :: "byte list \<Rightarrow> dns_header" where
  "load_header buf =
     \<lparr>message_id = peek16 buf 0, flags = peek16 buf 2, qd_count = peek16 buf 4,
      an_count = peek16 buf 6, ns_count = peek16 buf 8, as_count = peek16 buf 10\<rparr>"

definition record_source :: "dns_question \<Rightarrow> nat \<Rightarrow> int" where
  "record_source question i =
     12 + get_qname_len (qname question) + 2 * int FIELD_SIZE + int i * 16"

fun collect :: "'a result list \<Rightarrow> 'a list result" where
  "collect [] = Returns []"
| "collect (Fault # rs) = Fault"
| "collect (Returns r # rs) = (case collect rs of Fault \<Rightarrow> Fault | Returns xs \<Rightarrow> Returns (r # xs))"

definition extract_answers :: "byte list \<Rightarrow> dns_question \<Rightarrow> nat \<Rightarrow> dns_resource_record list result" where
  "extract_answers response question n =
     collect (map (\<lambda>i. if record_source question i < 0 then Fault
                        else extract_resource_record response (nat (record_source question i)))
                [0..<n])"

record dns_response =
  resp_header :: dns_header
  resp_flags :: dns_header_flags
  resp_question :: dns_question
  resp_answers :: "dns_resource_record list"

definition main_response :: "huge_memcpy \<Rightarrow> byte list \<Rightarrow> dns_response result option" where
  "main_response huge response =
     (if length response < 12 then Some Fault
      else
        (let header = flip_dns_header (load_header response)
         in case extract_question huge response 12 of
              None \<Rightarrow> None
            | Some Fault \<Rightarrow> Some Fault
            | Some (Returns question) \<Rightarrow>
                (case extract_answers response question (unat (an_count header)) of
                   Fault \<Rightarrow> Some Fault
                 | Returns records \<Rightarrow>
                     Some (Returns
                       \<lparr>resp_header = header, resp_flags = flags_view (flags header),
                        resp_question = question, resp_answers = records\<rparr>))))"

section \<open>Names as the specification describes them\<close>

text \<open>
  The labels of a dotted name, by splitting at every dot: consecutive dots, a leading
  dot, a trailing dot and the empty string give an empty label.
\<close>

fun labels_of :: "cstring \<Rightarrow> cstring list" where
  "labels_of [] = [[]]"
| "labels_of (c # cs) =
     (if c = dot then [] # labels_of cs
      else (case labels_of cs of [] \<Rightarrow> [[c]] | l # ls \<Rightarrow> (c # l) # ls))"

text \<open>
  A valid name: a string (no zero byte) whose labels have 1 to 63 bytes each and whose
  encoded size (a length byte and the bytes of each label, and the terminator) is at most
  255.
\<close>

definition valid_name :: "cstring \<Rightarrow> bool" where
  "valid_name name =
     (0 \<notin> set name
      \<and> list_all (\<lambda>l. 1 \<le> length l \<and> length l \<le> 63) (labels_of name)
      \<and> length (write_labels (labels_of name)) + 1 \<le> 255)"

text \<open>
  What the loop of \<^verbatim>\<open>extract_question\<close> appends to the decoded name for a sequence of
  labels: a dot in front of a label when something has been written before it.
\<close>

fun append_labels :: "cstring \<Rightarrow> cstring list \<Rightarrow> cstring" where
  "append_labels name [] = name"
| "append_labels name (l # ls) =
     append_labels ((if name \<noteq> [] then name @ [dot] else name) @ l) ls"

section \<open>The running offset of the specification\<close>

text \<open>
  The number of bytes that a name occupies where it stands, in the specification's words:
  a zero byte ends the name; a byte with top bits \<open>00\<close> is the length of a label that
  follows; a byte with top bits \<open>11\<close> and the byte behind it are a pointer, which ends
  the name where it stands, two bytes; top bits \<open>01\<close> and \<open>10\<close> are malformed. The
  argument is the buffer from the name on. A record occupies its name, ten bytes of type,
  class, TTL and data length, and the data.
\<close>

function spec_name_consumed :: "byte list \<Rightarrow> nat option" where
  "spec_name_consumed [] = None"
| "spec_name_consumed (b # bs) =
     (if b = 0 then Some 1
      else if drop_bit 6 b = 3 then (if bs = [] then None else Some 2)
      else if drop_bit 6 b = 0 \<and> unat b \<le> length bs
        then map_option (\<lambda>n. 1 + unat b + n) (spec_name_consumed (drop (unat b) bs))
      else None)"
  by pat_completeness auto
termination
  by (relation "measure length") auto

definition spec_record_consumed :: "byte list \<Rightarrow> nat \<Rightarrow> nat option" where
  "spec_record_consumed buf off =
     (case spec_name_consumed (drop off buf) of
        None \<Rightarrow> None
      | Some n \<Rightarrow>
          (if off + n + 10 \<le> length buf
              \<and> off + n + 10 + unat (ntohs (peek16 buf (off + n + 8))) \<le> length buf
           then Some (n + 10 + unat (ntohs (peek16 buf (off + n + 8))))
           else None))"

section \<open>Example responses\<close>

text \<open>
  Datagrams for \<^verbatim>\<open>www.example.com\<close>: header (id 1, flags \<open>0x8180\<close>), the question at
  offset 12 (17 bytes of name, type 1, class 1), and answers from offset 33.
\<close>

definition question_www :: "byte list" where
  "question_www =
     [3] @ bytes ''www'' @ [7] @ bytes ''example'' @ [3] @ bytes ''com'' @ [0, 0, 1, 0, 1]"

text \<open>One address record whose name is the pointer \<open>C0 0C\<close> to offset 12.\<close>

definition pointer_response :: "byte list" where
  "pointer_response =
     [0, 1, 0x81, 0x80, 0, 1, 0, 1, 0, 0, 0, 0] @ question_www
       @ [0xC0, 0x0C, 0, 1, 0, 1, 0, 0, 0, 60, 0, 4, 93, 184, 216, 34]"

text \<open>
  A CNAME record (type 5, two bytes of data: a pointer to offset 16) at offset 33 and an
  address record at offset 47.
\<close>

definition cname_response :: "byte list" where
  "cname_response =
     [0, 1, 0x81, 0x80, 0, 1, 0, 2, 0, 0, 0, 0] @ question_www
       @ [0xC0, 0x0C, 0, 5, 0, 1, 0, 0, 0, 60, 0, 2, 0xC0, 0x10]
       @ [0xC0, 0x10, 0, 1, 0, 1, 0, 0, 0, 60, 0, 4, 93, 184, 216, 34]"


text \<open>One address record (type 1) that declares six bytes of data.\<close>

definition long_rdata_response :: "byte list" where
  "long_rdata_response =
     [0, 1, 0x81, 0x80, 0, 1, 0, 1, 0, 0, 0, 0] @ question_www
       @ [0xC0, 0x0C, 0, 1, 0, 1, 0, 0, 0, 60, 0, 6, 93, 184, 216, 34, 7, 7]"

text \<open>A question whose only length byte is \<open>0x40\<close>, followed by 64 letters a.\<close>

definition reserved_length_response :: "byte list" where
  "reserved_length_response =
     [0, 1, 0x81, 0x80, 0, 1, 0, 0, 0, 0, 0, 0] @ [0x40] @ replicate 64 97 @ [0, 0, 1, 0, 1]"

section \<open>Bytes, words and the header\<close>

lemma bit_beyond: "LENGTH('a::len) \<le> n \<Longrightarrow> bit (x :: 'a word) n = False"
  using bit_imp_le_length [of x n] by auto

lemma rcode_of_flags_word: "ucast (flags_word f) = rcode f"
  unfolding flags_word_def by (rule bit_word_eqI) (simp add: bit_simps bit_beyond)

lemma z_of_flags_word: "ucast (drop_bit 4 (flags_word f)) = z f"
  unfolding flags_word_def by (rule bit_word_eqI) (simp add: bit_simps bit_beyond)

lemma ra_of_flags_word: "ucast (drop_bit 7 (flags_word f)) = ra f"
  unfolding flags_word_def by (rule bit_word_eqI) (simp add: bit_simps bit_beyond)

lemma rd_of_flags_word: "ucast (drop_bit 8 (flags_word f)) = rd f"
  unfolding flags_word_def by (rule bit_word_eqI) (simp add: bit_simps bit_beyond)

lemma tc_of_flags_word: "ucast (drop_bit 9 (flags_word f)) = tc f"
  unfolding flags_word_def by (rule bit_word_eqI) (simp add: bit_simps bit_beyond)

lemma aa_of_flags_word: "ucast (drop_bit 10 (flags_word f)) = aa f"
  unfolding flags_word_def by (rule bit_word_eqI) (simp add: bit_simps bit_beyond)

lemma opcode_of_flags_word: "ucast (drop_bit 11 (flags_word f)) = opcode f"
  unfolding flags_word_def by (rule bit_word_eqI) (simp add: bit_simps bit_beyond)

lemma qr_of_flags_word: "ucast (drop_bit 15 (flags_word f)) = qr f"
  unfolding flags_word_def by (rule bit_word_eqI) (simp add: bit_simps bit_beyond)

lemmas fields_of_flags_word =
  rcode_of_flags_word z_of_flags_word ra_of_flags_word rd_of_flags_word tc_of_flags_word
  aa_of_flags_word opcode_of_flags_word qr_of_flags_word

lemma flags_view_word: "flags_view (flags_word f) = f"
  by (simp add: flags_view_def fields_of_flags_word)

lemma flags_word_msb: "bit (flags_word f) 15 = bit (qr f) 0"
  unfolding flags_word_def by (simp add: bit_simps bit_beyond)

lemma flags_word_low: "take_bit 4 (flags_word f) = ucast (rcode f)"
  unfolding flags_word_def
  apply (rule bit_word_eqI)
  apply (simp add: bit_simps bit_beyond cong: conj_cong)
  apply (auto dest: bit_imp_le_length)
  done

lemma store16_htons: "store16 (htons x) = [ucast (drop_bit 8 x), ucast x]"
  unfolding store16_def htons_def
  by (auto intro!: bit_word_eqI simp: bit_simps)

lemma htons_wire:
  "htons (ucast (ucast (drop_bit 8 x) :: byte) OR push_bit 8 (ucast (ucast x :: byte))) =
     (x :: 16 word)"
  unfolding htons_def
  by (rule bit_word_eqI) (auto simp: bit_simps)

lemma ntohs_eq_htons: "ntohs = htons"
  by (rule ext) (simp add: ntohs_def htons_def)

lemma extract_header_eq_flip: "extract_header = flip_dns_header"
  by (rule ext) (simp add: extract_header_def flip_dns_header_def ntohs_eq_htons)

lemma store_header_flip:
  "store_header (flip_dns_header h) =
     [ucast (drop_bit 8 (message_id h)), ucast (message_id h),
      ucast (drop_bit 8 (flags h)), ucast (flags h),
      ucast (drop_bit 8 (qd_count h)), ucast (qd_count h),
      ucast (drop_bit 8 (an_count h)), ucast (an_count h),
      ucast (drop_bit 8 (ns_count h)), ucast (ns_count h),
      ucast (drop_bit 8 (as_count h)), ucast (as_count h)]"
  by (simp add: store_header_def flip_dns_header_def store16_htons)

lemma flip_load_store:
  "flip_dns_header (load_header (store_header (flip_dns_header h) @ rest)) = h"
  unfolding store_header_flip
  by (simp add: load_header_def flip_dns_header_def peek16_def htons_wire)

text \<open>
  C6. Encoding a header is: pack the flag fields into the flags word through the
  bit-field struct, swap every field with \<^verbatim>\<open>flip_dns_header\<close>, and lay the struct out in
  memory. Decoding is: read the struct from the first 12 bytes of a buffer and swap every
  field back (the client uses \<^verbatim>\<open>flip_dns_header\<close>; \<^verbatim>\<open>extract_header\<close> does the same),
  then look at the flags through the bit-field struct. For every header and every value
  of the eight flag fields the encoding has 12 bytes, each 16-bit field high byte first,
  in the order id, flags, question, answer, authority and additional count; decoding it
  gives back the header and the flag fields; \<^verbatim>\<open>qr\<close> is bit 15 of the flags word and
  \<^verbatim>\<open>rcode\<close> its 4 lowest bits.
\<close>

theorem header_round_trip:
  "length (store_header (flip_dns_header (h\<lparr>flags := flags_word f\<rparr>))) = 12
   \<and> store_header (flip_dns_header (h\<lparr>flags := flags_word f\<rparr>)) =
       [ucast (drop_bit 8 (message_id h)), ucast (message_id h),
        ucast (drop_bit 8 (flags_word f)), ucast (flags_word f),
        ucast (drop_bit 8 (qd_count h)), ucast (qd_count h),
        ucast (drop_bit 8 (an_count h)), ucast (an_count h),
        ucast (drop_bit 8 (ns_count h)), ucast (ns_count h),
        ucast (drop_bit 8 (as_count h)), ucast (as_count h)]
   \<and> flip_dns_header
         (load_header (store_header (flip_dns_header (h\<lparr>flags := flags_word f\<rparr>)) @ rest)) =
       h\<lparr>flags := flags_word f\<rparr>
   \<and> extract_header
         (load_header (store_header (flip_dns_header (h\<lparr>flags := flags_word f\<rparr>)) @ rest)) =
       h\<lparr>flags := flags_word f\<rparr>
   \<and> flags_view (flags (flip_dns_header
         (load_header (store_header (flip_dns_header (h\<lparr>flags := flags_word f\<rparr>)) @ rest)))) = f
   \<and> bit (flags_word f) 15 = bit (qr f) 0
   \<and> take_bit 4 (flags_word f) = ucast (rcode f)"
  unfolding extract_header_eq_flip flip_load_store
  by (simp add: store_header_flip flags_view_word flags_word_msb flags_word_low)

section \<open>Tokens, labels and the encoded name\<close>

lemma to_short_eq: "to_short n = (int n + 32768) mod 65536 - 32768"
  unfolding to_short_def
  using int_word_sint [where 'a=16, of "int n"] by simp

lemma to_short_small: "n < 32768 \<Longrightarrow> to_short n = int n"
  by (simp add: to_short_eq)

lemma to_short_range: "- 32768 \<le> to_short n \<and> to_short n < 32768"
  unfolding to_short_def
  using sint_range_size [of "word_of_nat n :: 16 word"] by (simp add: word_size)

lemma labels_of_nonempty: "labels_of s \<noteq> []"
  by (induction s) (auto split: list.splits)

lemma labels_of_unfold:
  "labels_of s = takeWhile (\<lambda>c. c \<noteq> dot) s #
     (case dropWhile (\<lambda>c. c \<noteq> dot) s of [] \<Rightarrow> [] | d # r \<Rightarrow> labels_of r)"
  by (induction s) (auto split: list.splits)

lemma strtok_all_Nil: "strtok_all [] = []"
  by (simp add: strtok_all.simps [of "[]"])

lemma filter_labels_dropWhile:
  "filter (\<lambda>l. l \<noteq> []) (labels_of (dropWhile (\<lambda>c. c = dot) s)) = filter (\<lambda>l. l \<noteq> []) (labels_of s)"
  by (induction s) (auto split: list.splits)

lemma strtok_all_labels: "strtok_all s = filter (\<lambda>l. l \<noteq> []) (labels_of s)"
proof (induction s rule: strtok_all.induct)
  case (1 s)
  show ?case
  proof (cases "dropWhile (\<lambda>c. c = dot) s")
    case Nil
    then have "strtok_all s = []" by (subst strtok_all.simps) (simp only: list.case)
    moreover have "filter (\<lambda>l. l \<noteq> []) (labels_of s) = []"
      using filter_labels_dropWhile [of s] Nil by simp
    ultimately show ?thesis by simp
  next
    case (Cons c cs)
    let ?r = "c # cs"
    have c: "c \<noteq> dot" using Cons hd_dropWhile [of "\<lambda>c. c = dot" s] by auto
    have IH: "strtok_all (drop 1 (dropWhile (\<lambda>c. c \<noteq> dot) ?r)) =
        filter (\<lambda>l. l \<noteq> []) (labels_of (drop 1 (dropWhile (\<lambda>c. c \<noteq> dot) ?r)))"
      using 1 [OF Cons] .
    have s: "strtok_all s = takeWhile (\<lambda>c. c \<noteq> dot) ?r # strtok_all (drop 1 (dropWhile (\<lambda>c. c \<noteq> dot) ?r))"
      by (subst strtok_all.simps) (simp only: Cons list.case)
    have "filter (\<lambda>l. l \<noteq> []) (labels_of s) = filter (\<lambda>l. l \<noteq> []) (labels_of ?r)"
      using filter_labels_dropWhile [of s] Cons by simp
    also have "\<dots> = takeWhile (\<lambda>c. c \<noteq> dot) ?r #
        filter (\<lambda>l. l \<noteq> []) (case dropWhile (\<lambda>c. c \<noteq> dot) ?r of [] \<Rightarrow> [] | d # r \<Rightarrow> labels_of r)"
      using c by (subst labels_of_unfold) simp
    also have "filter (\<lambda>l. l \<noteq> []) (case dropWhile (\<lambda>c. c \<noteq> dot) ?r of [] \<Rightarrow> [] | d # r \<Rightarrow> labels_of r)
        = filter (\<lambda>l. l \<noteq> []) (labels_of (drop 1 (dropWhile (\<lambda>c. c \<noteq> dot) ?r)))"
      by (cases "dropWhile (\<lambda>c. c \<noteq> dot) ?r") simp_all
    finally show ?thesis using s IH by simp
  qed
qed

lemma length_write_labels: "length (write_labels ls) = sum_list (map (\<lambda>l. Suc (length l)) ls)"
  by (induction ls) simp_all

lemma sum_labels_of: "sum_list (map (\<lambda>l. Suc (length l)) (labels_of s)) = Suc (length s)"
  by (induction s) (auto split: list.splits)

lemma sum_filter_nonempty:
  "sum_list (map (\<lambda>l. Suc (length l)) (filter (\<lambda>l. l \<noteq> []) ls)) + length (filter (\<lambda>l. l = []) ls)
     = sum_list (map (\<lambda>l. Suc (length l)) ls)"
  by (induction ls) simp_all

lemma length_written:
  "length (write_labels (strtok_all s)) + length (filter (\<lambda>l. l = []) (labels_of s)) = Suc (length s)"
  by (simp add: length_write_labels strtok_all_labels sum_filter_nonempty sum_labels_of)

lemma get_qname_len_fits:
  "get_qname_len host = int (length host) + 2 \<longleftrightarrow> length host + 2 < 32768"
proof
  assume "get_qname_len host = int (length host) + 2"
  then show "length host + 2 < 32768"
    using to_short_range [of "length host + 2"] by (simp add: get_qname_len_def)
next
  assume "length host + 2 < 32768"
  then show "get_qname_len host = int (length host) + 2"
    by (simp add: get_qname_len_def to_short_small)
qed

lemma get_qname_len_exact:
  "length host + 2 < 32768 \<Longrightarrow> get_qname_len host = int (length host) + 2"
  by (simp add: get_qname_len_fits)

lemma label_bytes: "l \<in> set (labels_of s) \<Longrightarrow> set l \<subseteq> set s"
proof (induction s arbitrary: l)
  case Nil
  then show ?case by simp
next
  case (Cons c cs)
  show ?case
  proof (cases "c = dot")
    case True
    then show ?thesis using Cons by auto
  next
    case False
    obtain l0 ls where L: "labels_of cs = l0 # ls"
      using labels_of_nonempty [of cs] by (cases "labels_of cs") auto
    then have "l = c # l0 \<or> l \<in> set ls" using Cons.prems False by simp
    moreover have "set l0 \<subseteq> set cs" using Cons.IH [of l0] L by simp
    moreover have "l \<in> set ls \<Longrightarrow> set l \<subseteq> set cs" using Cons.IH [of l] L by simp
    ultimately show ?thesis by auto
  qed
qed

lemma length_byte_zero: "(word_of_nat n :: byte) = 0 \<longleftrightarrow> n mod 256 = 0"
  by (simp add: word_of_nat_eq_0_iff dvd_eq_mod_eq_0)

lemma write_labels_no_zero:
  "\<forall>l\<in>set ls. length l mod 256 \<noteq> 0 \<and> 0 \<notin> set l \<Longrightarrow> 0 \<notin> set (write_labels ls)"
  by (induction ls) (auto simp: length_byte_zero)

lemma no_empty_label_tokens:
  "[] \<notin> set (labels_of s) \<Longrightarrow> strtok_all s = labels_of s"
  by (auto simp: strtok_all_labels filter_id_conv)

lemma hostname_to_qname_accepts:
  assumes "0 \<notin> set host" and "\<forall>l\<in>set (labels_of host). length l mod 256 \<noteq> 0"
    and "length host + 2 < 32768"
  shows "hostname_to_qname host = Returns (Some (write_labels (labels_of host)))"
proof -
  have ne: "[] \<notin> set (labels_of host)" using assms(2) by auto
  then have tok: "strtok_all host = labels_of host" by (rule no_empty_label_tokens)
  have "filter (\<lambda>l. l = []) (labels_of host) = []"
    using ne by (auto simp: filter_empty_conv)
  then have len: "length (write_labels (labels_of host)) = Suc (length host)"
    using length_written [of host] tok by simp
  have "\<forall>l\<in>set (labels_of host). length l mod 256 \<noteq> 0 \<and> 0 \<notin> set l"
    using assms(1,2) label_bytes by blast
  then have "0 \<notin> set (write_labels (labels_of host))" by (rule write_labels_no_zero)
  then have tw: "takeWhile (\<lambda>c. c \<noteq> 0) (write_labels (labels_of host)) = write_labels (labels_of host)"
    by (simp add: takeWhile_eq_all_conv) metis
  show ?thesis
    using assms(3) len
    by (simp add: hostname_to_qname_def Let_def get_qname_len_exact tok tw)
qed

lemma hostname_to_qname_rejects:
  assumes "[] \<in> set (labels_of host)" and "length host + 2 < 32768"
  shows "hostname_to_qname host = Returns None"
proof -
  have "filter (\<lambda>l. l = []) (labels_of host) \<noteq> []"
    using assms(1) by (simp add: filter_empty_conv)
  then have "0 < length (filter (\<lambda>l. l = []) (labels_of host))" by simp
  then have "length (write_labels (strtok_all host)) \<le> length host"
    using length_written [of host] by linarith
  moreover have "length (takeWhile (\<lambda>c. c \<noteq> 0) (write_labels (strtok_all host)))
      \<le> length (write_labels (strtok_all host))"
    by (rule length_takeWhile_le)
  ultimately show ?thesis
    using assms(2) by (simp add: hostname_to_qname_def Let_def get_qname_len_exact)
qed

lemma hostname_to_qname_Some:
  assumes "hostname_to_qname host = Returns (Some q)"
  shows "length host + 2 < 32768 \<and> length q = Suc (length host)"
proof -
  have fits: "length host + 2 < 32768"
    using assms by (auto simp: hostname_to_qname_def Let_def get_qname_len_fits split: if_splits)
  have q: "q = takeWhile (\<lambda>c. c \<noteq> 0) (write_labels (strtok_all host))"
    and ge: "length host + 2 \<le> length q + 1"
    using assms fits by (auto simp: hostname_to_qname_def Let_def get_qname_len_exact split: if_splits)
  have "length q \<le> length (write_labels (strtok_all host))"
    unfolding q by (rule length_takeWhile_le)
  also have "\<dots> \<le> Suc (length host)" using length_written [of host] by linarith
  finally show ?thesis using fits ge by simp
qed

lemma valid_name_accepts:
  assumes "valid_name host"
  shows "hostname_to_qname host = Returns (Some (write_labels (labels_of host)))"
    and "length (write_labels (labels_of host)) = Suc (length host)"
    and "length host + 2 \<le> 255"
proof -
  have z: "0 \<notin> set host" and ls: "\<forall>l\<in>set (labels_of host). 1 \<le> length l \<and> length l \<le> 63"
    and tot: "length (write_labels (labels_of host)) + 1 \<le> 255"
    using assms by (auto simp: valid_name_def list_all_iff)
  have ne: "[] \<notin> set (labels_of host)" using ls by auto
  then have "filter (\<lambda>l. l = []) (labels_of host) = []" by (auto simp: filter_empty_conv)
  then show len: "length (write_labels (labels_of host)) = Suc (length host)"
    using length_written [of host] no_empty_label_tokens [OF ne] by simp
  then show fits: "length host + 2 \<le> 255" using tot by simp
  have "\<forall>l\<in>set (labels_of host). length l mod 256 \<noteq> 0"
    using ls by fastforce
  then show "hostname_to_qname host = Returns (Some (write_labels (labels_of host)))"
    using z fits by (intro hostname_to_qname_accepts) auto
qed

section \<open>The label loop on an encoded name\<close>

lemma char_val_length: "n < 128 \<Longrightarrow> char_val (word_of_nat n) = int n"
  unfolding char_val_def
  using int_word_sint [where 'a=8, of "int n"] by simp

lemma load8_mid: "load8 (pre @ c # rest) (length pre) = Some c"
  by (simp add: load8_def)

lemma memcpy_src_mid: "memcpy_src (pre @ c # l @ rest) (Suc (length pre)) (length l) = Some l"
  by (simp add: memcpy_src_def)

lemma question_loop_labels:
  assumes "\<forall>l\<in>set ls. length l < 128"
    and "int (length pre + length (write_labels ls)) \<le> int start + qlen"
  shows "question_loop huge (pre @ write_labels ls @ post) start qlen (length pre) name =
         question_loop huge (pre @ write_labels ls @ post) start qlen
           (length pre + length (write_labels ls)) (append_labels name ls)"
  using assms
proof (induction ls arbitrary: pre name)
  case Nil
  then show ?case by simp
next
  case (Cons l ls)
  define b :: byte where "b = word_of_nat (length l)"
  define B where "B = pre @ write_labels (l # ls) @ post"
  define X where "X = (if name \<noteq> [] then name @ [dot] else name) @ l"
  define pre' where "pre' = pre @ b # l"
  have l: "length l < 128" using Cons.prems(1) by simp
  have B1: "B = pre @ b # l @ (write_labels ls @ post)" by (simp add: B_def b_def)
  have B2: "B = pre' @ write_labels ls @ post" by (simp add: B_def b_def pre'_def)
  have ld: "load8 B (length pre) = Some b" unfolding B1 by (rule load8_mid)
  have cp: "memcpy_src B (Suc (length pre)) (length l) = Some l"
    unfolding B1 by (rule memcpy_src_mid)
  have cv: "char_val b = int (length l)" unfolding b_def using l by (rule char_val_length)
  have len': "length pre' = length pre + length l + 1" by (simp add: pre'_def)
  have cond: "int (length pre) < int start + qlen" using Cons.prems(2) by simp
  have step: "question_loop huge B start qlen (length pre) name =
      question_loop huge B start qlen (length pre') X"
    by (subst question_loop.simps) (simp add: ld cv cp cond len' X_def)
  have "question_loop huge (pre' @ write_labels ls @ post) start qlen (length pre') X =
        question_loop huge (pre' @ write_labels ls @ post) start qlen
          (length pre' + length (write_labels ls)) (append_labels X ls)"
    using Cons.prems by (intro Cons.IH) (auto simp: pre'_def)
  then have IH': "question_loop huge B start qlen (length pre') X =
        question_loop huge B start qlen (length pre' + length (write_labels ls)) (append_labels X ls)"
    unfolding B2 .
  have fin: "length pre' + length (write_labels ls) = length pre + length (write_labels (l # ls))"
    by (simp add: len')
  have app: "append_labels name (l # ls) = append_labels X ls" by (simp add: X_def)
  show ?case
    unfolding B_def [symmetric] app using step IH' fin by simp
qed

lemma question_loop_exit:
  "\<not> int pos < int start + qlen \<Longrightarrow> question_loop huge buf start qlen pos name = Some (Returns (pos, name))"
  by (subst question_loop.simps) simp

lemma append_labels_nonempty:
  "name \<noteq> [] \<Longrightarrow> append_labels name (labels_of s) = name @ dot # s"
proof (induction "length s" arbitrary: s name rule: less_induct)
  case less
  let ?tw = "takeWhile (\<lambda>c. c \<noteq> dot) s"
  show ?case
  proof (cases "dropWhile (\<lambda>c. c \<noteq> dot) s")
    case Nil
    then have "?tw = s" by (metis append_Nil2 takeWhile_dropWhile_id)
    moreover have "labels_of s = [?tw]"
      by (subst labels_of_unfold) (simp only: Nil list.case)
    ultimately show ?thesis using less.prems by simp
  next
    case (Cons d r)
    have s: "s = ?tw @ d # r" using Cons by (metis takeWhile_dropWhile_id)
    have d: "d = dot" using Cons hd_dropWhile [of "\<lambda>c. c \<noteq> dot" s] by auto
    have "length s = length ?tw + length (d # r)" using arg_cong [OF s, of length] by simp
    then have "length r < length s" by simp
    then have "append_labels (name @ dot # ?tw) (labels_of r) = (name @ dot # ?tw) @ dot # r"
      by (intro less.hyps) auto
    moreover have "labels_of s = ?tw # labels_of r"
      by (subst labels_of_unfold) (simp only: Cons list.case)
    ultimately have "append_labels name (labels_of s) = name @ dot # ?tw @ dot # r"
      using less.prems by simp
    then show ?thesis using s d by simp
  qed
qed

lemma append_labels_labels_of:
  assumes "[] \<notin> set (labels_of s)"
  shows "append_labels [] (labels_of s) = s"
proof -
  let ?tw = "takeWhile (\<lambda>c. c \<noteq> dot) s"
  have tw: "?tw \<noteq> []" using assms by (subst (asm) labels_of_unfold) auto
  show ?thesis
  proof (cases "dropWhile (\<lambda>c. c \<noteq> dot) s")
    case Nil
    then have "?tw = s" by (metis append_Nil2 takeWhile_dropWhile_id)
    moreover have "labels_of s = [?tw]"
      by (subst labels_of_unfold) (simp only: Nil list.case)
    ultimately show ?thesis by simp
  next
    case (Cons d r)
    have s: "s = ?tw @ d # r" using Cons by (metis takeWhile_dropWhile_id)
    have d: "d = dot" using Cons hd_dropWhile [of "\<lambda>c. c \<noteq> dot" s] by auto
    have "labels_of s = ?tw # labels_of r"
      by (subst labels_of_unfold) (simp only: Cons list.case)
    then have "append_labels [] (labels_of s) = append_labels ?tw (labels_of r)"
      by simp
    also have "\<dots> = ?tw @ dot # r" using tw by (rule append_labels_nonempty)
    finally show ?thesis using s d by simp
  qed
qed

lemma strlen_mid:
  assumes "0 \<notin> set q"
  shows "strlen (pre @ q @ 0 # post) (length pre) = Some (length q)"
proof -
  have "\<forall>x\<in>set q. x \<noteq> 0" using assms by auto
  then have "takeWhile (\<lambda>c. c \<noteq> 0) (q @ 0 # post) = q" by (simp add: takeWhile_append2)
  then show ?thesis by (simp add: strlen_def)
qed

lemma peek16_behind: "length a \<le> i \<Longrightarrow> peek16 (a @ b) i = peek16 b (i - length a)"
  by (simp add: peek16_def nth_append Suc_diff_le)

lemma extract_question_labels:
  assumes "ls \<noteq> []"
    and "\<forall>l\<in>set ls. length l < 128 \<and> length l mod 256 \<noteq> 0 \<and> 0 \<notin> set l"
    and "length (write_labels ls) < 32768"
    and "4 \<le> length post"
  shows "extract_question huge (pre @ write_labels ls @ 0 # post) (length pre) =
     Some (Returns \<lparr>qname = takeWhile (\<lambda>c. c \<noteq> 0) (append_labels [] ls),
                    qtype = ntohs (peek16 post 0), qclass = ntohs (peek16 post 2)\<rparr>)"
proof -
  define q where "q = write_labels ls"
  define buf where "buf = pre @ q @ 0 # post"
  have nz: "0 \<notin> set q" unfolding q_def using assms(2) by (intro write_labels_no_zero) auto
  have sl: "strlen buf (length pre) = Some (length q)"
    unfolding buf_def using nz by (rule strlen_mid)
  have qpos: "0 < length q" using assms(1) by (cases ls) (auto simp: q_def)
  have ts: "to_short (length q) = int (length q)"
    using assms(3) by (simp add: q_def to_short_small)
  have "question_loop huge (pre @ write_labels ls @ (0 # post)) (length pre) (int (length q)) (length pre) []
      = question_loop huge (pre @ write_labels ls @ (0 # post)) (length pre) (int (length q))
          (length pre + length (write_labels ls)) (append_labels [] ls)"
    using assms(2) by (intro question_loop_labels) (auto simp: q_def)
  also have "\<dots> = Some (Returns (length pre + length q, append_labels [] ls))"
    unfolding q_def by (rule question_loop_exit) simp
  finally have loop: "question_loop huge buf (length pre) (int (length q)) (length pre) []
      = Some (Returns (length pre + length q, append_labels [] ls))"
    by (simp add: buf_def q_def)
  have b: "peek16 buf i = peek16 post (i - (length pre + length q + 1))"
    if "length pre + length q + 1 \<le> i" for i
    using that peek16_behind [of "pre @ q @ [0]" i post] by (simp add: buf_def)
  have inb: "length pre + length q + 5 \<le> length buf"
    using assms(4) by (simp add: buf_def)
  show ?thesis
    unfolding q_def [symmetric] buf_def [symmetric]
    using qpos inb by (simp add: extract_question_def sl ts loop b)
qed

lemma valid_name_labels:
  assumes "valid_name host"
  shows "labels_of host \<noteq> []"
    and "\<forall>l\<in>set (labels_of host). length l < 128 \<and> length l mod 256 \<noteq> 0 \<and> 0 \<notin> set l"
    and "[] \<notin> set (labels_of host)"
proof -
  show "labels_of host \<noteq> []" by (rule labels_of_nonempty)
  have z: "0 \<notin> set host" and ls: "\<forall>l\<in>set (labels_of host). 1 \<le> length l \<and> length l \<le> 63"
    using assms by (auto simp: valid_name_def list_all_iff)
  show "[] \<notin> set (labels_of host)" using ls by auto
  show "\<forall>l\<in>set (labels_of host). length l < 128 \<and> length l mod 256 \<noteq> 0 \<and> 0 \<notin> set l"
  proof
    fix l assume l: "l \<in> set (labels_of host)"
    then have "1 \<le> length l \<and> length l \<le> 63" using ls by blast
    moreover have "0 \<notin> set l" using label_bytes [OF l] z by auto
    ultimately show "length l < 128 \<and> length l mod 256 \<noteq> 0 \<and> 0 \<notin> set l" by auto
  qed
qed

lemma takeWhile_no_zero: "0 \<notin> set (s :: byte list) \<Longrightarrow> takeWhile (\<lambda>c. c \<noteq> 0) s = s"
  by (induction s) auto

section \<open>The query message\<close>

lemma hydrate_dns_header_eq:
  "hydrate_dns_header strict header =
     \<lparr>message_id = 1, flags = (if strict then flags header else 0x0100), qd_count = 1,
      an_count = 0, ns_count = 0, as_count = 0\<rparr>"
  by (simp add: hydrate_dns_header_def flags_word_def)

lemma hydrate_message_eq:
  "hydrate_message strict header q =
     [0, 1, ucast (drop_bit 8 (if strict then flags header else 0x0100)),
      ucast (if strict then flags header else 0x0100), 0, 1, 0, 0, 0, 0, 0, 0]
       @ q @ [0] @ [0, 1, 0, 1]"
  by (simp add: hydrate_message_def store_header_flip hydrate_dns_header_eq store16_htons)

lemma hydrate_message_effective:
  "hydrate_message False header q = [0, 1, 1, 0, 0, 1, 0, 0, 0, 0, 0, 0] @ q @ [0] @ [0, 1, 0, 1]"
  by (simp add: hydrate_message_eq)

lemma to_short_negative:
  assumes "32768 \<le> n" and "n < 65536"
  shows "to_short n < 0"
proof -
  have "int n + 32768 = (int n - 32768) + 65536" by simp
  then have "(int n + 32768) mod 65536 = (int n - 32768) mod 65536"
    by (simp only: mod_add_self2)
  also have "\<dots> = int n - 32768" using assms by (intro mod_pos_pos_trivial) auto
  finally show ?thesis using assms by (simp add: to_short_eq)
qed

lemma main_query_Some:
  assumes "main_query strict header host = Returns (Some message)"
  shows "\<exists>q. hostname_to_qname host = Returns (Some q)
             \<and> message = hydrate_message strict header q"
proof -
  obtain q where q: "hostname_to_qname host = Returns (Some q)"
    using assms by (auto simp: main_query_def split: result.splits option.splits)
  let ?n = "12 + length q + 1 + 2 * FIELD_SIZE"
  have lq: "length host + 2 < 32768" "length q = Suc (length host)"
    using hostname_to_qname_Some [OF q] by auto
  have nonneg: "\<not> to_short ?n < 0"
    and m: "message = take (nat (to_short ?n)) (hydrate_message strict header q)"
    using assms q by (auto simp: main_query_def Let_def split: if_splits)
  have "?n < 32768"
  proof (rule ccontr)
    assume "\<not> ?n < 32768"
    then have "to_short ?n < 0" using lq by (intro to_short_negative) (auto simp: FIELD_SIZE_def)
    then show False using nonneg by simp
  qed
  then have "to_short ?n = int ?n" by (rule to_short_small)
  then have "message = hydrate_message strict header q"
    using m by (simp add: hydrate_message_eq FIELD_SIZE_def)
  then show ?thesis using q by blast
qed

lemma main_query_valid:
  assumes "valid_name host"
  shows "main_query strict header host =
           Returns (Some (hydrate_message strict header (write_labels (labels_of host))))"
proof -
  have enc: "hostname_to_qname host = Returns (Some (write_labels (labels_of host)))"
    and len: "length (write_labels (labels_of host)) = Suc (length host)"
    and tot: "length host + 2 \<le> 255"
    using valid_name_accepts [OF assms] by auto
  have "to_short (12 + length (write_labels (labels_of host)) + 1 + 2 * FIELD_SIZE) =
      int (12 + length (write_labels (labels_of host)) + 1 + 2 * FIELD_SIZE)"
    using len tot by (intro to_short_small) (simp add: FIELD_SIZE_def)
  then show ?thesis
    by (simp add: main_query_def enc Let_def hydrate_message_eq FIELD_SIZE_def)
qed

lemma labels_of_no_dot: "dot \<notin> set s \<Longrightarrow> labels_of s = [s]"
  by (induction s) auto

lemma valid_example: "valid_name (bytes ''example.com'')"
  by (simp add: valid_name_def bytes_def)

lemma valid_www_example: "valid_name (bytes ''www.example.com'')"
  by (simp add: valid_name_def bytes_def)

section \<open>Claims about encoding\<close>

text \<open>
  C4. For every valid name (no zero byte, every label of 1 to 63 bytes, encoded size at
  most 255) \<^verbatim>\<open>hostname_to_qname\<close> returns an encoding, and \<^verbatim>\<open>extract_question\<close>, run
  on any buffer that holds this encoding with its terminator and at least the four bytes
  of type and class behind it, returns a question whose name is the original name.
\<close>

theorem name_round_trip:
  assumes "valid_name host" and "4 \<le> length post"
  shows "\<exists>q question.
           hostname_to_qname host = Returns (Some q)
           \<and> extract_question huge (pre @ q @ 0 # post) (length pre) = Some (Returns question)
           \<and> qname question = host"
proof -
  let ?q = "write_labels (labels_of host)"
  have enc: "hostname_to_qname host = Returns (Some ?q)"
    and len: "length ?q = Suc (length host)" and tot: "length host + 2 \<le> 255"
    using valid_name_accepts [OF assms(1)] by auto
  have z: "0 \<notin> set host" using assms(1) by (simp add: valid_name_def)
  have "extract_question huge (pre @ ?q @ 0 # post) (length pre) =
     Some (Returns \<lparr>qname = takeWhile (\<lambda>c. c \<noteq> 0) (append_labels [] (labels_of host)),
                    qtype = ntohs (peek16 post 0), qclass = ntohs (peek16 post 2)\<rparr>)"
    using valid_name_labels [OF assms(1)] assms(2) len tot
    by (intro extract_question_labels) auto
  moreover have "append_labels [] (labels_of host) = host"
    using valid_name_labels(3) [OF assms(1)] by (rule append_labels_labels_of)
  ultimately show ?thesis using enc z by (simp add: takeWhile_no_zero)
qed

theorem name_round_trip_witness:
  "valid_name (bytes ''www.example.com'')
   \<and> 4 \<le> length [0, 1, 0, 1 :: byte]
   \<and> (\<exists>q question.
         hostname_to_qname (bytes ''www.example.com'') = Returns (Some q)
         \<and> extract_question memcpy_faults ([0, 1, 1, 0, 0, 1, 0, 0, 0, 0, 0, 0] @ q @ 0 # [0, 1, 0, 1]) 12
             = Some (Returns question)
         \<and> qname question = bytes ''www.example.com'')"
proof -
  have l: "4 \<le> length [0, 1, 0, 1 :: byte]" by simp
  have len: "length [0, 1, 1, 0, 0, 1, 0, 0, 0, 0, 0, 0 :: byte] = 12" by simp
  show ?thesis
    using name_round_trip [OF valid_www_example l,
        where pre = "[0, 1, 1, 0, 0, 1, 0, 0, 0, 0, 0, 0]" and huge = memcpy_faults,
        unfolded len] valid_www_example l
    by blast
qed

lemma query_output_without_strict_aliasing:
  assumes "valid_name host"
  shows "main_query False header host =
           Returns (Some ([0, 1, 1, 0, 0, 1, 0, 0, 0, 0, 0, 0]
                          @ write_labels (labels_of host) @ [0] @ [0, 1, 0, 1]))
         \<and> hostname_to_qname host = Returns (Some (write_labels (labels_of host)))
         \<and> length ([0, 1, 1, 0, 0, 1, 0, 0, 0, 0, 0, 0 :: byte]
                    @ write_labels (labels_of host) @ [0] @ [0, 1, 0, 1])
             = 12 + (length host + 2) + 4
         \<and> flags_view (flags (hydrate_dns_header False header)) =
             \<lparr>rcode = 0, z = 0, ra = 0, rd = 1, tc = 0, aa = 0, opcode = 0, qr = 0\<rparr>
         \<and> qd_count (hydrate_dns_header False header) = 1
         \<and> an_count (hydrate_dns_header False header) = 0
         \<and> ns_count (hydrate_dns_header False header) = 0
         \<and> as_count (hydrate_dns_header False header) = 0"
  using main_query_valid [OF assms, of False header] valid_name_accepts [OF assms]
  by (simp add: hydrate_message_eq hydrate_dns_header_eq flags_view_def)

lemma query_output_with_strict_aliasing:
  assumes "valid_name host"
  shows "main_query True header host =
           Returns (Some ([0, 1, ucast (drop_bit 8 (flags header)), ucast (flags header),
                           0, 1, 0, 0, 0, 0, 0, 0]
                          @ write_labels (labels_of host) @ [0] @ [0, 1, 0, 1]))"
  using main_query_valid [OF assms, of True header]
  by (simp add: hydrate_message_eq)

text \<open>
  C7. The code sets \<^verbatim>\<open>rd\<close> and clears the other flags through the bit-field overlay,
  and in a build that uses the aliasing rule of C these stores do not reach the flags
  word: the query carries in its flags what the message block held before. For
  \<^verbatim>\<open>example.com\<close> and a block of zero bytes the datagram handed to \<^verbatim>\<open>sendto\<close> is
  \<open>00 01 00 00 00 01 00 00 00 00 00 00\<close>, the encoded name with its terminator and
  \<open>00 01 00 01\<close>: 29 bytes as the claim says, id 1 and one question as the claim says,
  but flags \<open>0x0000\<close> with \<^verbatim>\<open>rd\<close> 0 where the claim says \<^verbatim>\<open>rd\<close> 1.
\<close>

theorem query_flags_lost_under_strict_aliasing:
  "main_query True
       \<lparr>message_id = 0, flags = 0, qd_count = 0, an_count = 0, ns_count = 0, as_count = 0\<rparr>
       (bytes ''example.com'') =
     Returns (Some [0, 1, 0, 0, 0, 1, 0, 0, 0, 0, 0, 0,
                    7, 101, 120, 97, 109, 112, 108, 101, 3, 99, 111, 109, 0,
                    0, 1, 0, 1])
   \<and> rd (flags_view (flags (hydrate_dns_header True
         \<lparr>message_id = 0, flags = 0, qd_count = 0, an_count = 0, ns_count = 0, as_count = 0\<rparr>))) = 0
   \<and> main_query False
       \<lparr>message_id = 0, flags = 0, qd_count = 0, an_count = 0, ns_count = 0, as_count = 0\<rparr>
       (bytes ''example.com'') =
     Returns (Some [0, 1, 1, 0, 0, 1, 0, 0, 0, 0, 0, 0,
                    7, 101, 120, 97, 109, 112, 108, 101, 3, 99, 111, 109, 0,
                    0, 1, 0, 1])"
  using main_query_valid [OF valid_example, of True
      "\<lparr>message_id = 0, flags = 0, qd_count = 0, an_count = 0, ns_count = 0, as_count = 0\<rparr>"]
    main_query_valid [OF valid_example, of False
      "\<lparr>message_id = 0, flags = 0, qd_count = 0, an_count = 0, ns_count = 0, as_count = 0\<rparr>"]
  by (simp add: hydrate_message_eq hydrate_dns_header_eq flags_view_def bytes_def)

text \<open>
  C10. Whatever the host, whatever the message block held before and whether or not the
  build uses the aliasing rule, a datagram that the client sends starts with the bytes
  \<open>00 01\<close>: \<^verbatim>\<open>hydrate_dns_header\<close> sets \<^verbatim>\<open>message_id\<close> to 1 with an ordinary store, and
  the identifier read back from the datagram is 1.
\<close>

theorem query_id_is_one:
  assumes "main_query strict header host = Returns (Some message)"
  shows "message_id (hydrate_dns_header strict header) = 1
         \<and> take 2 message = [0, 1]
         \<and> message_id (flip_dns_header (load_header message)) = 1"
proof -
  obtain q where "message = hydrate_message strict header q"
    using main_query_Some [OF assms] by blast
  then show ?thesis
    by (simp add: hydrate_message_eq hydrate_dns_header_eq load_header_def flip_dns_header_def
        peek16_def htons_def)
qed

theorem query_id_is_one_witness:
  "main_query False \<lparr>message_id = 7, flags = 0xFFFF, qd_count = 3, an_count = 4, ns_count = 5,
       as_count = 6\<rparr> (bytes ''example.com'') =
     Returns (Some [0, 1, 1, 0, 0, 1, 0, 0, 0, 0, 0, 0,
                    7, 101, 120, 97, 109, 112, 108, 101, 3, 99, 111, 109, 0, 0, 1, 0, 1])
   \<and> take 2 [0, 1, 1, 0, 0, 1, 0, 0, 0, 0, 0, 0,
                7, 101, 120, 97, 109, 112, 108, 101, 3, 99, 111, 109, 0, 0, 1, 0, 1 :: byte]
       = [0, 1]
   \<and> message_id (flip_dns_header (load_header
         [0, 1, 1, 0, 0, 1, 0, 0, 0, 0, 0, 0,
          7, 101, 120, 97, 109, 112, 108, 101, 3, 99, 111, 109, 0, 0, 1, 0, 1])) = 1"
proof -
  have m: "main_query False \<lparr>message_id = 7, flags = 0xFFFF, qd_count = 3, an_count = 4,
       ns_count = 5, as_count = 6\<rparr> (bytes ''example.com'') =
     Returns (Some [0, 1, 1, 0, 0, 1, 0, 0, 0, 0, 0, 0,
                    7, 101, 120, 97, 109, 112, 108, 101, 3, 99, 111, 109, 0, 0, 1, 0, 1])"
    using main_query_valid [OF valid_example, of False]
    by (simp add: hydrate_message_eq bytes_def)
  show ?thesis using query_id_is_one [OF m] m by simp
qed

text \<open>
  C5, as the code has it. \<^verbatim>\<open>hostname_to_qname\<close> returns \<^verbatim>\<open>NULL\<close>, and the client stops
  after "Wrong hostname" without building a message, for every host of at most 32765
  bytes that has an empty label: the empty string, consecutive dots, a leading or a
  trailing dot. The code compares lengths only; it has no check of the 63-byte limit of a
  label or of the 255-byte limit of the encoding.
\<close>

theorem encode_rejects_empty_label:
  assumes "[] \<in> set (labels_of host)" and "length host + 2 < 32768"
  shows "hostname_to_qname host = Returns None
         \<and> main_query strict header host = Returns None"
  using hostname_to_qname_rejects [OF assms] by (simp add: main_query_def)

theorem encode_rejects_empty_label_witness:
  "[] \<in> set (labels_of (bytes ''a..b''))
   \<and> length (bytes ''a..b'') + 2 < 32768
   \<and> hostname_to_qname (bytes ''a..b'') = Returns None
   \<and> main_query False
         \<lparr>message_id = 7, flags = 0xFFFF, qd_count = 3, an_count = 4, ns_count = 5, as_count = 6\<rparr>
         (bytes ''a..b'') = Returns None"
proof -
  have e: "[] \<in> set (labels_of (bytes ''a..b''))" by (simp add: bytes_def)
  have l: "length (bytes ''a..b'') + 2 < 32768" by (simp add: bytes_def)
  show ?thesis
    using encode_rejects_empty_label [OF e l, where strict = False
        and header = "\<lparr>message_id = 7, flags = 0xFFFF, qd_count = 3, an_count = 4, ns_count = 5, as_count = 6\<rparr>"] e l
    by simp
qed

text \<open>
  C5 as stated fails: a single label of 64 bytes (64 times the letter a) is encoded, with
  length byte 64, and not rejected.
\<close>

theorem encode_accepts_label_of_64_bytes:
  "labels_of (replicate 64 97) = [replicate 64 97]
   \<and> length (replicate 64 (97 :: byte)) = 64
   \<and> hostname_to_qname (replicate 64 97) = Returns (Some (64 # replicate 64 97))"
proof -
  have l: "labels_of (replicate 64 97) = [replicate 64 97]"
    by (rule labels_of_no_dot) simp
  have "hostname_to_qname (replicate 64 97) =
      Returns (Some (write_labels (labels_of (replicate 64 97))))"
    by (rule hostname_to_qname_accepts) (simp_all add: l)
  then show ?thesis using l by simp
qed

section \<open>Reading the response buffer\<close>

lemma load8_append_left: "i < length a \<Longrightarrow> load8 (a @ b) i = load8 a i"
  by (simp add: load8_def nth_append)

lemma memcpy_src_append_left:
  "i + n \<le> length a \<Longrightarrow> memcpy_src (a @ b) i n = memcpy_src a i n"
  by (simp add: memcpy_src_def)

lemma strlen_append_left: "0 \<in> set (drop i a) \<Longrightarrow> strlen (a @ b) i = strlen a i"
  by (auto simp: strlen_def takeWhile_append1 dest: in_set_dropD)

lemma peek16_append_left: "i + 2 \<le> length a \<Longrightarrow> peek16 (a @ b) i = peek16 a i"
  by (simp add: peek16_def nth_append)

lemma peek32_append_left: "i + 4 \<le> length a \<Longrightarrow> peek32 (a @ b) i = peek32 a i"
  by (simp add: peek32_def nth_append)

lemma ntohs_peek16:
  "ntohs (peek16 buf i) = push_bit 8 (ucast (buf ! i)) OR ucast (buf ! (i + 1))"
  unfolding ntohs_def peek16_def
  apply (rule bit_word_eqI)
  apply (simp add: bit_simps bit_beyond cong: conj_cong)
  apply (auto dest: bit_imp_le_length)
  done

lemma recv_buffer_short:
  "length d \<le> 2048 \<Longrightarrow> recv_buffer d = d @ replicate (2048 - length d) 0"
  by (simp add: recv_buffer_def BUFFER_SIZE_def)

lemma length_recv_buffer: "length (recv_buffer d) = 2048"
  by (simp add: recv_buffer_def BUFFER_SIZE_def)

lemma len_pointer_response: "length pointer_response = 49"
  by (simp add: pointer_response_def question_www_def bytes_def)

lemma question_www_decoded:
  "extract_question huge (hdr @ question_www @ rest) (length hdr) =
     Some (Returns \<lparr>qname = bytes ''www.example.com'', qtype = 1, qclass = 1\<rparr>)"
proof -
  have "extract_question huge (hdr @ write_labels [bytes ''www'', bytes ''example'', bytes ''com'']
          @ 0 # ([0, 1, 0, 1] @ rest)) (length hdr) =
     Some (Returns \<lparr>qname = takeWhile (\<lambda>c. c \<noteq> 0)
                      (append_labels [] [bytes ''www'', bytes ''example'', bytes ''com'']),
                    qtype = ntohs (peek16 ([0, 1, 0, 1] @ rest) 0),
                    qclass = ntohs (peek16 ([0, 1, 0, 1] @ rest) 2)\<rparr>)"
    by (rule extract_question_labels) (simp_all add: bytes_def)
  moreover have "hdr @ write_labels [bytes ''www'', bytes ''example'', bytes ''com'']
          @ 0 # ([0, 1, 0, 1] @ rest) = hdr @ question_www @ rest"
    by (simp add: question_www_def bytes_def)
  moreover have "append_labels [] [bytes ''www'', bytes ''example'', bytes ''com'']
      = bytes ''www.example.com''"
    by (simp add: bytes_def)
  moreover have "ntohs (peek16 ([0, 1, 0, 1] @ rest) 0) = 1"
    and "ntohs (peek16 ([0, 1, 0, 1] @ rest) 2) = 1"
    by (simp_all add: ntohs_peek16)
  moreover have "takeWhile (\<lambda>c. c \<noteq> 0) (bytes ''www.example.com'') = bytes ''www.example.com''"
    by (simp add: bytes_def)
  ultimately show ?thesis
    by (simp only:)
qed

lemma fault_at_pointer:
  "extract_question memcpy_faults (recv_buffer pointer_response) 33 = Some Fault"
  apply (simp add: recv_buffer_short len_pointer_response extract_question_def)
  apply (subst strlen_append_left)
   apply (simp add: pointer_response_def question_www_def bytes_def)
  apply (simp add: strlen_def pointer_response_def question_www_def bytes_def to_short_small)
  apply (subst question_loop.simps)
  apply (simp add: load8_def char_val_def memcpy_faults_def)
  done





lemma collect_Returns:
  "collect xs = Returns ys \<Longrightarrow>
     length ys = length xs \<and> (\<forall>i<length xs. xs ! i = Returns (ys ! i))"
proof (induction xs arbitrary: ys)
  case Nil
  then show ?case by simp
next
  case (Cons x xs)
  show ?case
  proof (cases x)
    case Fault
    then show ?thesis using Cons.prems by simp
  next
    case (Returns r)
    then obtain zs where zs: "collect xs = Returns zs" and ys: "ys = r # zs"
      using Cons.prems by (auto split: result.splits)
    have "length zs = length xs \<and> (\<forall>i<length xs. xs ! i = Returns (zs ! i))"
      using Cons.IH [OF zs] .
    then show ?thesis using Returns ys by (auto simp: nth_Cons split: nat.splits)
  qed
qed

section \<open>Decoding records and responses\<close>

lemma and_3FFF: "(w :: 16 word) AND 0x3FFF = take_bit 14 w"
  by (simp add: take_bit_eq_mask mask_eq_exp_minus_1)

lemma offset_bytes:
  "(push_bit 8 (ucast (b0 :: byte)) OR ucast (b1 :: byte) :: 16 word) AND 0x3FFF =
     push_bit 8 (ucast (take_bit 6 b0)) OR ucast b1"
  unfolding and_3FFF
  apply (rule bit_word_eqI)
  apply (simp add: bit_simps bit_beyond cong: conj_cong)
  apply (auto dest: bit_imp_le_length)
  done

lemma peek32_byte0: "(ucast (peek32 buf i) :: byte) = buf ! i"
  unfolding peek32_def by (rule bit_word_eqI) (simp add: bit_simps bit_beyond)

lemma peek32_byte1: "(ucast (drop_bit 8 (peek32 buf i)) :: byte) = buf ! (i + 1)"
  unfolding peek32_def by (rule bit_word_eqI) (simp add: bit_simps bit_beyond)

lemma peek32_byte2: "(ucast (drop_bit 16 (peek32 buf i)) :: byte) = buf ! (i + 2)"
  unfolding peek32_def by (rule bit_word_eqI) (simp add: bit_simps bit_beyond)

lemma peek32_byte3: "(ucast (drop_bit 24 (peek32 buf i)) :: byte) = buf ! (i + 3)"
  unfolding peek32_def by (rule bit_word_eqI) (simp add: bit_simps bit_beyond)

lemma inet_ntoa_peek32:
  "inet_ntoa (peek32 buf i) =
     decimal (unat (buf ! i)) @ [dot] @ decimal (unat (buf ! (i + 1))) @ [dot]
       @ decimal (unat (buf ! (i + 2))) @ [dot] @ decimal (unat (buf ! (i + 3)))"
  unfolding inet_ntoa_def peek32_byte0 peek32_byte1 peek32_byte2 peek32_byte3 by simp

lemma window16:
  "s + 16 \<le> length b \<Longrightarrow> k + 2 \<le> 16 \<Longrightarrow> peek16 (take 16 (drop s b)) k = peek16 b (s + k)"
  by (simp add: peek16_def add.assoc)

lemma window32:
  "s + 16 \<le> length b \<Longrightarrow> k + 4 \<le> 16 \<Longrightarrow> peek32 (take 16 (drop s b)) k = peek32 b (s + k)"
  by (simp add: peek32_def add.assoc)

lemma extract_resource_record_window:
  assumes "s + 16 \<le> length b"
  shows "extract_resource_record b s = extract_resource_record (take 16 (drop s b)) 0"
proof -
  have "peek16 (take 16 (drop s b)) 0 = peek16 b s"
    using window16 [OF assms, of 0] by simp
  then show ?thesis
    using assms
    by (simp add: extract_resource_record_def window16 [OF assms] window32 [OF assms])
qed

lemma be16_at:
  "ntohs (peek16 buf (s + k)) = push_bit 8 (ucast (buf ! (s + k))) OR ucast (buf ! (s + Suc k))"
  using ntohs_peek16 [of buf "s + k"] by simp

lemma top01_range:
  assumes "drop_bit 6 (b :: byte) = 1"
  shows "64 \<le> unat b \<and> unat b < 128"
proof -
  have "unat (drop_bit 6 b) = unat b div 64"
    by (simp add: unat_drop_bit_eq drop_bit_eq_div unat_div)
  then have "unat b div 64 = 1" using assms by simp
  then show ?thesis by presburger
qed

lemma len_reserved: "length reserved_length_response = 82"
  by (simp add: reserved_length_response_def)

lemma flip_load_be:
  "flip_dns_header (load_header b) =
     \<lparr>message_id = push_bit 8 (ucast (b ! 0)) OR ucast (b ! 1),
      flags = push_bit 8 (ucast (b ! 2)) OR ucast (b ! 3),
      qd_count = push_bit 8 (ucast (b ! 4)) OR ucast (b ! 5),
      an_count = push_bit 8 (ucast (b ! 6)) OR ucast (b ! 7),
      ns_count = push_bit 8 (ucast (b ! 8)) OR ucast (b ! 9),
      as_count = push_bit 8 (ucast (b ! 10)) OR ucast (b ! 11)\<rparr>"
  using ntohs_peek16 [of b 0] ntohs_peek16 [of b 2] ntohs_peek16 [of b 4]
    ntohs_peek16 [of b 6] ntohs_peek16 [of b 8] ntohs_peek16 [of b 10]
  by (simp add: flip_dns_header_def load_header_def ntohs_eq_htons)

lemma www_len: "get_qname_len (bytes ''www.example.com'') = 17"
  by (simp add: get_qname_len_def to_short_small bytes_def)

lemma record_source_www:
  "record_source \<lparr>qname = bytes ''www.example.com'', qtype = t, qclass = c\<rparr> i = 33 + 16 * int i"
  by (simp add: record_source_def www_len FIELD_SIZE_def)

lemma question_at_12:
  assumes "length hdr = 12"
  shows "extract_question huge (hdr @ question_www @ rest) 12 =
     Some (Returns \<lparr>qname = bytes ''www.example.com'', qtype = 1, qclass = 1\<rparr>)"
  using question_www_decoded [where hdr = hdr and rest = rest] assms by simp

lemma pointer_buffer:
  "recv_buffer pointer_response =
     [0, 1, 0x81, 0x80, 0, 1, 0, 1, 0, 0, 0, 0] @ question_www
       @ ([0xC0, 0x0C, 0, 1, 0, 1, 0, 0, 0, 60, 0, 4, 93, 184, 216, 34] @ replicate 1999 0)"
  by (simp add: recv_buffer_short len_pointer_response) (simp add: pointer_response_def)

lemma pointer_question:
  "extract_question huge (recv_buffer pointer_response) 12 =
     Some (Returns \<lparr>qname = bytes ''www.example.com'', qtype = 1, qclass = 1\<rparr>)"
  unfolding pointer_buffer by (rule question_at_12) simp

lemma pointer_record:
  "extract_resource_record (recv_buffer pointer_response) 33 =
     Returns \<lparr>offset = 12, rr_type = 1, rr_class = 1, ttl = 60, rd_length = 4,
       ip_addr = bytes ''93.184.216.34''\<rparr>"
  apply (simp add: recv_buffer_short len_pointer_response extract_resource_record_def
      peek16_append_left peek32_append_left)
  apply (simp add: pointer_response_def question_www_def bytes_def peek16_def peek32_def
      ntohs_def ntohl_def inet_ntoa_def)
  done

lemma pointer_header:
  "flip_dns_header (load_header (recv_buffer pointer_response)) =
     \<lparr>message_id = 1, flags = 0x8180, qd_count = 1, an_count = 1, ns_count = 0, as_count = 0\<rparr>"
  unfolding flip_load_be pointer_buffer by simp

lemma pointer_main:
  "main_response huge (recv_buffer pointer_response) =
     Some (Returns
       \<lparr>resp_header = \<lparr>message_id = 1, flags = 0x8180, qd_count = 1, an_count = 1,
                        ns_count = 0, as_count = 0\<rparr>,
        resp_flags = \<lparr>rcode = 0, z = 0, ra = 1, rd = 1, tc = 0, aa = 0, opcode = 0, qr = 1\<rparr>,
        resp_question = \<lparr>qname = bytes ''www.example.com'', qtype = 1, qclass = 1\<rparr>,
        resp_answers = [\<lparr>offset = 12, rr_type = 1, rr_class = 1, ttl = 60, rd_length = 4,
                          ip_addr = bytes ''93.184.216.34''\<rparr>]\<rparr>)"
  by (simp add: main_response_def length_recv_buffer pointer_header pointer_question
      extract_answers_def record_source_www pointer_record flags_view_def)

lemma len_cname_response: "length cname_response = 63"
  by (simp add: cname_response_def question_www_def bytes_def)

lemma cname_buffer:
  "recv_buffer cname_response =
     [0, 1, 0x81, 0x80, 0, 1, 0, 2, 0, 0, 0, 0] @ question_www
       @ ([0xC0, 0x0C, 0, 5, 0, 1, 0, 0, 0, 60, 0, 2, 0xC0, 0x10, 0xC0, 0x10, 0, 1, 0, 1, 0, 0, 0, 60, 0, 4, 93, 184, 216, 34] @ replicate 1985 0)"
  by (simp add: recv_buffer_short len_cname_response) (simp add: cname_response_def)

lemma cname_question:
  "extract_question huge (recv_buffer cname_response) 12 =
     Some (Returns \<lparr>qname = bytes ''www.example.com'', qtype = 1, qclass = 1\<rparr>)"
  unfolding cname_buffer by (rule question_at_12) simp

lemma cname_header:
  "flip_dns_header (load_header (recv_buffer cname_response)) =
     \<lparr>message_id = 1, flags = 0x8180, qd_count = 1, an_count = 2, ns_count = 0, as_count = 0\<rparr>"
  unfolding flip_load_be cname_buffer by simp





lemma len_long_rdata_response: "length long_rdata_response = 51"
  by (simp add: long_rdata_response_def question_www_def bytes_def)

lemma long_rdata_buffer:
  "recv_buffer long_rdata_response =
     [0, 1, 0x81, 0x80, 0, 1, 0, 1, 0, 0, 0, 0] @ question_www
       @ ([0xC0, 0x0C, 0, 1, 0, 1, 0, 0, 0, 60, 0, 6, 93, 184, 216, 34, 7, 7] @ replicate 1997 0)"
  by (simp add: recv_buffer_short len_long_rdata_response) (simp add: long_rdata_response_def)

lemma long_rdata_question:
  "extract_question huge (recv_buffer long_rdata_response) 12 =
     Some (Returns \<lparr>qname = bytes ''www.example.com'', qtype = 1, qclass = 1\<rparr>)"
  unfolding long_rdata_buffer by (rule question_at_12) simp

lemma long_rdata_header:
  "flip_dns_header (load_header (recv_buffer long_rdata_response)) =
     \<lparr>message_id = 1, flags = 0x8180, qd_count = 1, an_count = 1, ns_count = 0, as_count = 0\<rparr>"
  unfolding flip_load_be long_rdata_buffer by simp

lemma record_eval:
  assumes "length d \<le> 2048" and "s + 16 \<le> length d"
  shows "extract_resource_record (recv_buffer d) s = extract_resource_record d s"
  using assms
  by (simp add: recv_buffer_short extract_resource_record_def peek16_append_left
      peek32_append_left)

lemmas record_eval_simps =
  extract_resource_record_def question_www_def bytes_def peek16_def peek32_def
  ntohs_def ntohl_def inet_ntoa_def

lemma cname_record_33:
  "extract_resource_record (recv_buffer cname_response) 33 =
     Returns \<lparr>offset = 12, rr_type = 5, rr_class = 1, ttl = 60, rd_length = 2,
       ip_addr = bytes ''192.16.192.16''\<rparr>"
  by (subst record_eval) (simp_all add: len_cname_response, simp add: cname_response_def record_eval_simps)

lemma cname_record_49:
  "extract_resource_record (recv_buffer cname_response) 49 =
     Returns \<lparr>offset = 1, rr_type = 1, rr_class = 0, ttl = 0x3C0004, rd_length = 0x5DB8,
       ip_addr = bytes ''216.34.0.0''\<rparr>"
  unfolding cname_buffer
  by (simp add: record_eval_simps nth_append)

lemma cname_record_47:
  "extract_resource_record (recv_buffer cname_response) 47 =
     Returns \<lparr>offset = 16, rr_type = 1, rr_class = 1, ttl = 60, rd_length = 4,
       ip_addr = bytes ''93.184.216.34''\<rparr>"
  by (subst record_eval) (simp_all add: len_cname_response, simp add: cname_response_def record_eval_simps)

lemma cname_consumed: "spec_record_consumed (recv_buffer cname_response) 33 = Some 14"
  unfolding cname_buffer
  by (simp add: spec_record_consumed_def question_www_def bytes_def drop_bit_eq_div
      ntohs_peek16 nth_append)

lemma upt_0_2: "[0..<2] = [0, 1]"
  by (simp add: numeral_2_eq_2)

lemma cname_main:
  "main_response huge (recv_buffer cname_response) =
     Some (Returns
       \<lparr>resp_header = \<lparr>message_id = 1, flags = 0x8180, qd_count = 1, an_count = 2,
                        ns_count = 0, as_count = 0\<rparr>,
        resp_flags = \<lparr>rcode = 0, z = 0, ra = 1, rd = 1, tc = 0, aa = 0, opcode = 0, qr = 1\<rparr>,
        resp_question = \<lparr>qname = bytes ''www.example.com'', qtype = 1, qclass = 1\<rparr>,
        resp_answers =
          [\<lparr>offset = 12, rr_type = 5, rr_class = 1, ttl = 60, rd_length = 2,
             ip_addr = bytes ''192.16.192.16''\<rparr>,
           \<lparr>offset = 1, rr_type = 1, rr_class = 0, ttl = 0x3C0004, rd_length = 0x5DB8,
             ip_addr = bytes ''216.34.0.0''\<rparr>]\<rparr>)"
  by (simp add: main_response_def length_recv_buffer cname_header cname_question
      extract_answers_def record_source_www cname_record_33 cname_record_49 flags_view_def
      upt_0_2)



lemma long_rdata_record:
  "extract_resource_record (recv_buffer long_rdata_response) 33 =
     Returns \<lparr>offset = 12, rr_type = 1, rr_class = 1, ttl = 60, rd_length = 6,
       ip_addr = bytes ''93.184.216.34''\<rparr>"
  by (subst record_eval) (simp_all add: len_long_rdata_response, simp add: long_rdata_response_def record_eval_simps)

section \<open>Claims about decoding\<close>

text \<open>
  C1, as the code has it. \<^verbatim>\<open>extract_resource_record\<close> does not decode the name of a
  record and does not follow a pointer. For every record that lies inside the buffer it
  stores the low 6 bits of the first byte and the second byte as the 14-bit \<^verbatim>\<open>offset\<close>,
  and reads the type from the third and fourth byte: the name takes two bytes where it
  stands. The result depends on the 16 bytes of the record only, not on what the buffer
  holds at the offset. For the pointer \<open>C0 0C\<close> the stored offset is 12.
\<close>

theorem record_name_is_stored_offset:
  assumes "source + 16 \<le> length buf"
  shows "\<exists>r. extract_resource_record buf source = Returns r
           \<and> offset r = push_bit 8 (ucast (take_bit 6 (buf ! source))) OR ucast (buf ! (source + 1))
           \<and> rr_type r = push_bit 8 (ucast (buf ! (source + 2))) OR ucast (buf ! (source + 3))
           \<and> (\<forall>buf'. length buf' = length buf
                       \<and> take 16 (drop source buf') = take 16 (drop source buf)
                 \<longrightarrow> extract_resource_record buf' source = Returns r)"
proof -
  define r where "r = \<lparr>offset = ntohs (peek16 buf source) AND 0x3FFF,
         rr_type = ntohs (peek16 buf (source + 2)),
         rr_class = ntohs (peek16 buf (source + 4)),
         ttl = ntohl (peek32 buf (source + 6)),
         rd_length = ntohs (peek16 buf (source + 10)),
         ip_addr = inet_ntoa (peek32 buf (source + 12))\<rparr>"
  have r: "extract_resource_record buf source = Returns r"
    using assms by (simp add: extract_resource_record_def r_def)
  have "ntohs (peek16 buf source) AND 0x3FFF =
      push_bit 8 (ucast (take_bit 6 (buf ! source))) OR ucast (buf ! (source + 1))"
    unfolding ntohs_peek16 by (rule offset_bytes)
  then have o: "offset r =
      push_bit 8 (ucast (take_bit 6 (buf ! source))) OR ucast (buf ! (source + 1))"
    by (simp add: r_def)
  have "ntohs (peek16 buf (source + 2)) =
      push_bit 8 (ucast (buf ! (source + 2))) OR ucast (buf ! (source + 3))"
    using be16_at [of buf source 2] by (simp only: eval_nat_numeral)
  then have t: "rr_type r =
      push_bit 8 (ucast (buf ! (source + 2))) OR ucast (buf ! (source + 3))"
    by (simp add: r_def)
  have w: "extract_resource_record buf' source = Returns r"
    if "length buf' = length buf \<and> take 16 (drop source buf') = take 16 (drop source buf)"
    for buf'
  proof -
    have "source + 16 \<le> length buf'" using that assms by simp
    then have "extract_resource_record buf' source =
        extract_resource_record (take 16 (drop source buf')) 0"
      by (rule extract_resource_record_window)
    also have "\<dots> = extract_resource_record (take 16 (drop source buf)) 0"
      using that by simp
    also have "\<dots> = extract_resource_record buf source"
      using extract_resource_record_window [OF assms] by simp
    finally show ?thesis using r by simp
  qed
  show ?thesis using r o t w by blast
qed

theorem record_name_is_stored_offset_witness:
  "33 + 16 \<le> length (recv_buffer pointer_response)
   \<and> push_bit 8 (ucast (take_bit 6 (recv_buffer pointer_response ! 33)))
         OR ucast (recv_buffer pointer_response ! (33 + 1)) = (12 :: 16 word)
   \<and> (\<exists>r. extract_resource_record (recv_buffer pointer_response) 33 = Returns r
         \<and> offset r = push_bit 8 (ucast (take_bit 6 (recv_buffer pointer_response ! 33)))
               OR ucast (recv_buffer pointer_response ! (33 + 1))
         \<and> rr_type r = push_bit 8 (ucast (recv_buffer pointer_response ! (33 + 2)))
               OR ucast (recv_buffer pointer_response ! (33 + 3))
         \<and> (\<forall>buf'. length buf' = length (recv_buffer pointer_response)
                     \<and> take 16 (drop 33 buf') = take 16 (drop 33 (recv_buffer pointer_response))
               \<longrightarrow> extract_resource_record buf' 33 = Returns r))"
proof -
  have h: "33 + 16 \<le> length (recv_buffer pointer_response)"
    by (simp add: length_recv_buffer)
  have o: "push_bit 8 (ucast (take_bit 6 (recv_buffer pointer_response ! 33)))
         OR ucast (recv_buffer pointer_response ! (33 + 1)) = (12 :: 16 word)"
    unfolding pointer_buffer by (simp add: question_www_def bytes_def nth_append)
  show ?thesis
    using record_name_is_stored_offset [OF h] h o by blast
qed

text \<open>
  C1 as stated fails. In the response whose question name stands at offset 12 and whose
  answer starts at offset 33 with the pointer \<open>C0 0C\<close>, the name decoder
  \<^verbatim>\<open>extract_question\<close> gives \<^verbatim>\<open>www.example.com\<close> at offset 12, and at offset 33 it takes
  \<open>0xC0\<close> for a negative length and calls \<^verbatim>\<open>memcpy\<close> with it, which is a fault in a
  build where such a call faults; the record decoder gives the number 12 and no name.
\<close>

theorem pointer_name_not_decoded:
  "extract_question memcpy_faults (recv_buffer pointer_response) 12 =
     Some (Returns \<lparr>qname = bytes ''www.example.com'', qtype = 1, qclass = 1\<rparr>)
   \<and> recv_buffer pointer_response ! 33 = 0xC0
   \<and> recv_buffer pointer_response ! 34 = 0x0C
   \<and> extract_question memcpy_faults (recv_buffer pointer_response) 33 = Some Fault
   \<and> extract_resource_record (recv_buffer pointer_response) 33 =
       Returns \<lparr>offset = 12, rr_type = 1, rr_class = 1, ttl = 60, rd_length = 4, ip_addr = bytes ''93.184.216.34''\<rparr>"
proof -
  have "recv_buffer pointer_response ! 33 = 0xC0" "recv_buffer pointer_response ! 34 = 0x0C"
    unfolding pointer_buffer by (simp_all add: question_www_def bytes_def nth_append)
  then show ?thesis
    using pointer_question fault_at_pointer pointer_record by simp
qed

text \<open>
  C2, as the code has it. When \<^verbatim>\<open>main\<close> gets through a response, it has swapped the
  header, decoded one question at offset 12 (whatever the question count says), and
  decoded as many records as the answer count says, record \<open>i\<close> at the offset
  \<open>12 + get_qname_len(qname) + 4 + 16 * i\<close>: a stride of 16 bytes, the size of an address
  record whose name is a pointer.
\<close>

theorem answers_at_fixed_stride:
  assumes "main_response huge response = Some (Returns r)"
  shows "resp_header r = flip_dns_header (load_header response)
         \<and> extract_question huge response 12 = Some (Returns (resp_question r))
         \<and> length (resp_answers r) = unat (an_count (resp_header r))
         \<and> (\<forall>i<length (resp_answers r).
               record_source (resp_question r) i =
                 12 + get_qname_len (qname (resp_question r)) + 4 + 16 * int i
               \<and> 0 \<le> record_source (resp_question r) i
               \<and> extract_resource_record response (nat (record_source (resp_question r) i)) =
                   Returns (resp_answers r ! i))"
proof -
  define header where "header = flip_dns_header (load_header response)"
  obtain question records where
    q: "extract_question huge response 12 = Some (Returns question)"
    and a: "extract_answers response question (unat (an_count header)) = Returns records"
    and r: "r = \<lparr>resp_header = header, resp_flags = flags_view (flags header),
                  resp_question = question, resp_answers = records\<rparr>"
    using assms
    by (auto simp: main_response_def Let_def header_def
        split: if_splits option.splits result.splits)
  let ?f = "\<lambda>i. if record_source question i < 0 then Fault
               else extract_resource_record response (nat (record_source question i))"
  have c: "length records = length (map ?f [0..<unat (an_count header)])
      \<and> (\<forall>i<length (map ?f [0..<unat (an_count header)]).
            map ?f [0..<unat (an_count header)] ! i = Returns (records ! i))"
    using a unfolding extract_answers_def by (rule collect_Returns)
  then have len: "length records = unat (an_count header)" by simp
  have each: "0 \<le> record_source question i
      \<and> extract_resource_record response (nat (record_source question i)) = Returns (records ! i)"
    if "i < length records" for i
  proof -
    have i: "i < unat (an_count header)" using that len by simp
    then have "map ?f [0..<unat (an_count header)] ! i = Returns (records ! i)"
      using c by simp
    moreover have "map ?f [0..<unat (an_count header)] ! i = ?f i"
      using i by simp
    ultimately have "?f i = Returns (records ! i)" by simp
    then show ?thesis by (auto split: if_splits)
  qed
  have src: "record_source question i = 12 + get_qname_len (qname question) + 4 + 16 * int i" for i
    by (simp add: record_source_def FIELD_SIZE_def)
  show ?thesis
    using q len each src by (simp add: r header_def)
qed

theorem answers_at_fixed_stride_witness:
  "main_response memcpy_faults (recv_buffer pointer_response) =
     Some (Returns
       \<lparr>resp_header = \<lparr>message_id = 1, flags = 0x8180, qd_count = 1, an_count = 1, ns_count = 0, as_count = 0\<rparr>,
        resp_flags = \<lparr>rcode = 0, z = 0, ra = 1, rd = 1, tc = 0, aa = 0, opcode = 0, qr = 1\<rparr>,
        resp_question = \<lparr>qname = bytes ''www.example.com'', qtype = 1, qclass = 1\<rparr>,
        resp_answers = [\<lparr>offset = 12, rr_type = 1, rr_class = 1, ttl = 60, rd_length = 4, ip_addr = bytes ''93.184.216.34''\<rparr>]\<rparr>)
   \<and> extract_question memcpy_faults (recv_buffer pointer_response) 12 =
       Some (Returns \<lparr>qname = bytes ''www.example.com'', qtype = 1, qclass = 1\<rparr>)
   \<and> record_source \<lparr>qname = bytes ''www.example.com'', qtype = 1, qclass = 1\<rparr> 0 = 33
   \<and> extract_resource_record (recv_buffer pointer_response) 33 =
       Returns \<lparr>offset = 12, rr_type = 1, rr_class = 1, ttl = 60, rd_length = 4, ip_addr = bytes ''93.184.216.34''\<rparr>"
proof -
  note t = answers_at_fixed_stride [OF pointer_main]
  have q: "extract_question memcpy_faults (recv_buffer pointer_response) 12 =
       Some (Returns \<lparr>qname = bytes ''www.example.com'', qtype = 1, qclass = 1\<rparr>)"
    using t by simp
  have "record_source \<lparr>qname = bytes ''www.example.com'', qtype = 1, qclass = 1\<rparr> 0 = 33
      \<and> extract_resource_record (recv_buffer pointer_response) 33 =
          Returns \<lparr>offset = 12, rr_type = 1, rr_class = 1, ttl = 60, rd_length = 4, ip_addr = bytes ''93.184.216.34''\<rparr>"
    using t by (simp add: record_source_www)
  then show ?thesis using pointer_main q by simp
qed

text \<open>
  C2 as stated fails. In the response with a CNAME record at offset 33 and an address
  record behind it, the first record occupies 14 bytes (pointer, ten fixed bytes, two
  bytes of data), so the second record stands at offset 47 and holds the address
  93.184.216.34. \<^verbatim>\<open>main\<close> reads the second record at offset 49 and reports the address
  216.34.0.0.
\<close>

theorem second_answer_read_at_wrong_offset:
  "spec_record_consumed (recv_buffer cname_response) 33 = Some 14
   \<and> extract_resource_record (recv_buffer cname_response) (33 + 14) =
       Returns \<lparr>offset = 16, rr_type = 1, rr_class = 1, ttl = 60, rd_length = 4, ip_addr = bytes ''93.184.216.34''\<rparr>
   \<and> record_source \<lparr>qname = bytes ''www.example.com'', qtype = 1, qclass = 1\<rparr> 1 = 49
   \<and> main_response memcpy_faults (recv_buffer cname_response) =
       Some (Returns
         \<lparr>resp_header = \<lparr>message_id = 1, flags = 0x8180, qd_count = 1, an_count = 2, ns_count = 0, as_count = 0\<rparr>,
        resp_flags = \<lparr>rcode = 0, z = 0, ra = 1, rd = 1, tc = 0, aa = 0, opcode = 0, qr = 1\<rparr>,
        resp_question = \<lparr>qname = bytes ''www.example.com'', qtype = 1, qclass = 1\<rparr>,
        resp_answers = [\<lparr>offset = 12, rr_type = 5, rr_class = 1, ttl = 60, rd_length = 2, ip_addr = bytes ''192.16.192.16''\<rparr>,
          \<lparr>offset = 1, rr_type = 1, rr_class = 0, ttl = 0x3C0004, rd_length = 0x5DB8, ip_addr = bytes ''216.34.0.0''\<rparr>]\<rparr>)"
  using cname_consumed cname_record_47 cname_main
  by (simp add: record_source_www)




text \<open>
  C8, as the code has it. \<^verbatim>\<open>extract_question\<close> does not look at the top two bits of a
  length byte. A byte \<open>b\<close> whose top two bits are \<open>01\<close> (\<open>drop_bit 6 b = 1\<close>) is the
  length, 64 to 127, of a label: followed by that many non-zero bytes, the terminator and
  four bytes of type and class, it is decoded as the name made of those bytes.
\<close>

theorem length_byte_01_is_a_label:
  assumes "drop_bit 6 b = 1" and "length l = unat b" and "0 \<notin> set l" and "4 \<le> length post"
  shows "extract_question huge (pre @ b # l @ 0 # post) (length pre) =
           Some (Returns \<lparr>qname = l, qtype = ntohs (peek16 post 0),
                          qclass = ntohs (peek16 post 2)\<rparr>)"
proof -
  have range: "64 \<le> length l" "length l < 128"
    using top01_range [OF assms(1)] assms(2) by auto
  have b: "word_of_nat (length l) = b" using assms(2) by simp
  have "extract_question huge (pre @ write_labels [l] @ 0 # post) (length pre) =
     Some (Returns \<lparr>qname = takeWhile (\<lambda>c. c \<noteq> 0) (append_labels [] [l]),
                    qtype = ntohs (peek16 post 0), qclass = ntohs (peek16 post 2)\<rparr>)"
    using range assms(3,4) by (intro extract_question_labels) auto
  then show ?thesis using assms(3) b by (simp add: takeWhile_no_zero)
qed

theorem length_byte_01_is_a_label_witness:
  "drop_bit 6 (0x40 :: byte) = 1
   \<and> length (replicate 64 (97 :: byte)) = unat (0x40 :: byte)
   \<and> 0 \<notin> set (replicate 64 (97 :: byte))
   \<and> 4 \<le> length [0, 1, 0, 1 :: byte]
   \<and> extract_question memcpy_faults
         ([0, 1, 0x81, 0x80, 0, 1, 0, 0, 0, 0, 0, 0] @ 0x40 # replicate 64 97 @ 0 # [0, 1, 0, 1]) 12
       = Some (Returns \<lparr>qname = replicate 64 97, qtype = 1, qclass = 1\<rparr>)"
proof -
  have a: "drop_bit 6 (0x40 :: byte) = 1" by (simp add: drop_bit_eq_div)
  have b: "length (replicate 64 (97 :: byte)) = unat (0x40 :: byte)" by simp
  have c: "0 \<notin> set (replicate 64 (97 :: byte))" by simp
  have d: "4 \<le> length [0, 1, 0, 1 :: byte]" by simp
  have len: "length [0, 1, 0x81, 0x80, 0, 1, 0, 0, 0, 0, 0, 0 :: byte] = 12" by simp
  have t: "ntohs (peek16 [0, 1, 0, 1] 0) = 1" "ntohs (peek16 [0, 1, 0, 1] 2) = 1"
    by (simp_all add: ntohs_peek16)
  show ?thesis
    using length_byte_01_is_a_label [OF a b c d,
        where pre = "[0, 1, 0x81, 0x80, 0, 1, 0, 0, 0, 0, 0, 0]" and huge = memcpy_faults,
        unfolded len t] a b c d
    by (simp only: simp_thms)
qed

text \<open>
  C8 as stated fails. In a response whose question starts with the byte \<open>0x40\<close>, top bits
  \<open>01\<close>, followed by 64 letters a, \<^verbatim>\<open>extract_question\<close> returns the name of 64 letters.
\<close>

theorem reserved_length_byte_accepted:
  "recv_buffer reserved_length_response ! 12 = 0x40
   \<and> drop_bit 6 (0x40 :: byte) = 1
   \<and> extract_question memcpy_faults (recv_buffer reserved_length_response) 12 =
       Some (Returns \<lparr>qname = replicate 64 97, qtype = 1, qclass = 1\<rparr>)"
proof -
  let ?rest = "replicate (2048 - 82) (0 :: byte)"
  have buf: "recv_buffer reserved_length_response =
      [0, 1, 0x81, 0x80, 0, 1, 0, 0, 0, 0, 0, 0] @ write_labels [replicate 64 97]
        @ 0 # ([0, 1, 0, 1] @ ?rest)"
    by (simp add: recv_buffer_short len_reserved) (simp add: reserved_length_response_def)
  have len: "length [0, 1, 0x81, 0x80, 0, 1, 0, 0, 0, 0, 0, 0 :: byte] = 12" by simp
  have "extract_question memcpy_faults ([0, 1, 0x81, 0x80, 0, 1, 0, 0, 0, 0, 0, 0] @ write_labels [replicate 64 97]
        @ 0 # ([0, 1, 0, 1] @ ?rest)) (length [0, 1, 0x81, 0x80, 0, 1, 0, 0, 0, 0, 0, 0 :: byte]) =
     Some (Returns \<lparr>qname = takeWhile (\<lambda>c. c \<noteq> 0) (append_labels [] [replicate 64 97]),
                    qtype = ntohs (peek16 ([0, 1, 0, 1] @ ?rest) 0),
                    qclass = ntohs (peek16 ([0, 1, 0, 1] @ ?rest) 2)\<rparr>)"
    by (rule extract_question_labels) simp_all
  moreover have "ntohs (peek16 ([0, 1, 0, 1] @ ?rest) 0) = 1"
    "ntohs (peek16 ([0, 1, 0, 1] @ ?rest) 2) = 1"
    by (simp_all add: ntohs_peek16)
  moreover have "takeWhile (\<lambda>c. c \<noteq> 0) (append_labels [] [replicate 64 (97 :: byte)]) = replicate 64 97"
    by (simp add: takeWhile_no_zero)
  ultimately have q: "extract_question memcpy_faults (recv_buffer reserved_length_response) 12 =
       Some (Returns \<lparr>qname = replicate 64 97, qtype = 1, qclass = 1\<rparr>)"
    unfolding buf len by (simp only:)
  have "recv_buffer reserved_length_response ! 12 = 0x40"
    unfolding buf by simp
  moreover have "drop_bit 6 (0x40 :: byte) = 1" by (simp add: drop_bit_eq_div)
  ultimately show ?thesis using q by blast
qed

text \<open>
  C9, as the code has it. \<^verbatim>\<open>extract_resource_record\<close> compares \<^verbatim>\<open>rd_length\<close> with
  nothing. For every record that lies inside the buffer it returns the type and the
  declared data length as they stand, and as address the four bytes behind the length
  field, in decimal with dots, whatever the type and the length are.
\<close>

theorem record_ignores_rd_length:
  assumes "source + 16 \<le> length buf"
  shows "\<exists>r. extract_resource_record buf source = Returns r
           \<and> rr_type r = push_bit 8 (ucast (buf ! (source + 2))) OR ucast (buf ! (source + 3))
           \<and> rd_length r =
               push_bit 8 (ucast (buf ! (source + 10))) OR ucast (buf ! (source + 11))
           \<and> ip_addr r =
               decimal (unat (buf ! (source + 12))) @ [dot]
                 @ decimal (unat (buf ! (source + 13))) @ [dot]
                 @ decimal (unat (buf ! (source + 14))) @ [dot]
                 @ decimal (unat (buf ! (source + 15)))"
proof -
  define r where "r = \<lparr>offset = ntohs (peek16 buf source) AND 0x3FFF,
         rr_type = ntohs (peek16 buf (source + 2)),
         rr_class = ntohs (peek16 buf (source + 4)),
         ttl = ntohl (peek32 buf (source + 6)),
         rd_length = ntohs (peek16 buf (source + 10)),
         ip_addr = inet_ntoa (peek32 buf (source + 12))\<rparr>"
  have r: "extract_resource_record buf source = Returns r"
    using assms by (simp add: extract_resource_record_def r_def)
  have "ntohs (peek16 buf (source + 2)) =
      push_bit 8 (ucast (buf ! (source + 2))) OR ucast (buf ! (source + 3))"
    using be16_at [of buf source 2] by (simp only: eval_nat_numeral)
  then have t: "rr_type r =
      push_bit 8 (ucast (buf ! (source + 2))) OR ucast (buf ! (source + 3))"
    by (simp add: r_def)
  have "ntohs (peek16 buf (source + 10)) =
      push_bit 8 (ucast (buf ! (source + 10))) OR ucast (buf ! (source + 11))"
    using be16_at [of buf source 10] by (simp only: eval_nat_numeral)
  then have l: "rd_length r =
      push_bit 8 (ucast (buf ! (source + 10))) OR ucast (buf ! (source + 11))"
    by (simp add: r_def)
  have e: "source + 12 + 1 = source + 13" "source + 12 + 2 = source + 14"
    "source + 12 + 3 = source + 15"
    by simp_all
  have "inet_ntoa (peek32 buf (source + 12)) =
       decimal (unat (buf ! (source + 12))) @ [dot]
                 @ decimal (unat (buf ! (source + 13))) @ [dot]
                 @ decimal (unat (buf ! (source + 14))) @ [dot]
                 @ decimal (unat (buf ! (source + 15)))"
    using inet_ntoa_peek32 [of buf "source + 12"] by (simp only: e)
  then have a: "ip_addr r = decimal (unat (buf ! (source + 12))) @ [dot]
                 @ decimal (unat (buf ! (source + 13))) @ [dot]
                 @ decimal (unat (buf ! (source + 14))) @ [dot]
                 @ decimal (unat (buf ! (source + 15)))"
    by (simp only: r_def dns_resource_record.simps)
  show ?thesis using r t l a by blast
qed

theorem record_ignores_rd_length_witness:
  "33 + 16 \<le> length (recv_buffer long_rdata_response)
   \<and> (\<exists>r. extract_resource_record (recv_buffer long_rdata_response) 33 = Returns r
         \<and> rr_type r = push_bit 8 (ucast (recv_buffer long_rdata_response ! (33 + 2)))
               OR ucast (recv_buffer long_rdata_response ! (33 + 3))
         \<and> rd_length r = push_bit 8 (ucast (recv_buffer long_rdata_response ! (33 + 10)))
               OR ucast (recv_buffer long_rdata_response ! (33 + 11))
         \<and> ip_addr r =
               decimal (unat (recv_buffer long_rdata_response ! (33 + 12))) @ [dot]
                 @ decimal (unat (recv_buffer long_rdata_response ! (33 + 13))) @ [dot]
                 @ decimal (unat (recv_buffer long_rdata_response ! (33 + 14))) @ [dot]
                 @ decimal (unat (recv_buffer long_rdata_response ! (33 + 15))))"
proof -
  have h: "33 + 16 \<le> length (recv_buffer long_rdata_response)"
    by (simp add: length_recv_buffer)
  show ?thesis
    using record_ignores_rd_length [OF h] h by blast
qed

text \<open>
  C9 as stated fails. An address record (type 1) that declares six bytes of data is
  returned, with data length 6 and the address made of the first four bytes.
\<close>

theorem address_record_of_six_bytes_accepted:
  "extract_resource_record (recv_buffer long_rdata_response) 33 =
     Returns \<lparr>offset = 12, rr_type = 1, rr_class = 1, ttl = 60, rd_length = 6, ip_addr = bytes ''93.184.216.34''\<rparr>"
  by (rule long_rdata_record)

end
